theory Spec2Isabelle
  imports Complex_Main
begin

section \<open>Values and failures\<close>

text \<open>
  The likelihood of \<^verbatim>\<open>bfore/maplike.py\<close> works on numpy arrays of floats. Floats are
  idealised as real numbers, and an array is the nested list of its entries, outermost
  axis first. Every failure of the Python code is a value of \<open>error\<close>:
  \<^item> \<open>ConfigError msg\<close>: \<^verbatim>\<open>check_parameters\<close> prints \<open>msg\<close> and calls \<^verbatim>\<open>exit()\<close>
    (its docstring names the failure \<^verbatim>\<open>ConfigError\<close>);
  \<^item> \<open>ZeroDivisionError\<close>, \<open>UnboundLocalError\<close>, \<open>NameError\<close>, \<open>IndexError\<close>: raised by
    the interpreter;
  \<^item> \<open>ValueError\<close>: numpy refuses operands whose shapes do not fit;
  \<^item> \<open>LinAlgError\<close>: \<^verbatim>\<open>np.linalg.solve\<close> on a singular or non-square matrix;
  \<^item> \<open>NonFinite\<close>: a numpy scalar division by zero, whose result (inf or nan) is no real
    number;
  \<^item> \<open>ExternalError msg\<close>: whatever a collaborator (the sky model, the map reader)
    raises.
\<close>

datatype error =
    ConfigError string
  | ZeroDivisionError
  | UnboundLocalError string
  | NameError string
  | IndexError
  | ValueError
  | LinAlgError
  | NonFinite
  | ExternalError string

definition bind_err :: "error + 'a \<Rightarrow> ('a \<Rightarrow> error + 'b) \<Rightarrow> error + 'b" where
  "bind_err m f = (case m of Inl e \<Rightarrow> Inl e | Inr x \<Rightarrow> f x)"

fun sequence_err :: "(error + 'a) list \<Rightarrow> error + 'a list" where
  "sequence_err [] = Inr []"
| "sequence_err (x # xs) =
     (case x of
        Inl e \<Rightarrow> Inl e
      | Inr v \<Rightarrow> (case sequence_err xs of Inl e \<Rightarrow> Inl e | Inr vs \<Rightarrow> Inr (v # vs)))"

type_synonym arr1 = "real list"
type_synonym arr2 = "real list list"
type_synonym arr3 = "real list list list"
type_synonym arr4 = "real list list list list"

text \<open>
  The shape of a nested list: the length of each axis, read off the first entry (0 below
  an empty axis). \<open>is_arr3 l m n a\<close> says that \<open>a\<close> is rectangular of shape \<open>(l, m, n)\<close>,
  as every numpy array is.
\<close>

definition dim1 :: "'a list list \<Rightarrow> nat" where
  "dim1 a = (case a of [] \<Rightarrow> 0 | x # _ \<Rightarrow> length x)"

definition dim2 :: "'a list list list \<Rightarrow> nat" where
  "dim2 a = (case a of [] \<Rightarrow> 0 | x # _ \<Rightarrow> dim1 x)"

definition dim3 :: "'a list list list list \<Rightarrow> nat" where
  "dim3 a = (case a of [] \<Rightarrow> 0 | x # _ \<Rightarrow> dim2 x)"

definition is_arr2 :: "nat \<Rightarrow> nat \<Rightarrow> 'a list list \<Rightarrow> bool" where
  "is_arr2 m n a = (length a = m \<and> list_all (\<lambda>r. length r = n) a)"

definition is_arr3 :: "nat \<Rightarrow> nat \<Rightarrow> nat \<Rightarrow> 'a list list list \<Rightarrow> bool" where
  "is_arr3 l m n a = (length a = l \<and> list_all (is_arr2 m n) a)"

definition is_arr4 :: "nat \<Rightarrow> nat \<Rightarrow> nat \<Rightarrow> nat \<Rightarrow> 'a list list list list \<Rightarrow> bool" where
  "is_arr4 k l m n a = (length a = k \<and> list_all (is_arr3 l m n) a)"

definition len_flatten :: "arr3 \<Rightarrow> nat" where
  "len_flatten a = length (concat (concat a))"

section \<open>The numpy operations the likelihood calls\<close>

subsection \<open>The tensor contractions\<close>

text \<open>
  One definition per \<^verbatim>\<open>np.einsum\<close> call of the source, named after its subscript string:
  an output entry is the sum, over the subscripts missing from the output, of the product
  of the operands' entries. Operands whose axes with a common subscript differ in length
  are refused (numpy's broadcasting of an axis of length 1 is not modelled).
\<close>

definition einsum_ijk_ljk_jilk :: "arr3 \<Rightarrow> arr3 \<Rightarrow> error + arr4" where
  "einsum_ijk_ljk_jilk a b =
     (let I = length a; J = dim1 a; K = dim2 a; L = length b
      in if is_arr3 I J K a \<and> is_arr3 L J K b
         then Inr (map (\<lambda>j. map (\<lambda>i. map (\<lambda>l. map (\<lambda>k.
                     a ! i ! j ! k * b ! l ! j ! k)
                   [0..<K]) [0..<L]) [0..<I]) [0..<J])
         else Inl ValueError)"

definition einsum_ijkl_lin_injk :: "arr4 \<Rightarrow> arr3 \<Rightarrow> error + arr4" where
  "einsum_ijkl_lin_injk a b =
     (let I = length a; J = dim1 a; K = dim2 a; L = dim3 a; N = dim2 b
      in if is_arr4 I J K L a \<and> is_arr3 L I N b
         then Inr (map (\<lambda>i. map (\<lambda>n. map (\<lambda>j. map (\<lambda>k.
                     (\<Sum>l\<leftarrow>[0..<L]. a ! i ! j ! k ! l * b ! l ! i ! n))
                   [0..<K]) [0..<J]) [0..<N]) [0..<I])
         else Inl ValueError)"

definition einsum_jik_kil_kil_ilj :: "arr3 \<Rightarrow> arr3 \<Rightarrow> arr3 \<Rightarrow> error + arr3" where
  "einsum_jik_kil_kil_ilj a b c =
     (let J = length a; K = length b; I = dim1 b; L = dim2 b
      in if is_arr3 J I K a \<and> is_arr3 K I L b \<and> is_arr3 K I L c
         then Inr (map (\<lambda>i. map (\<lambda>l. map (\<lambda>j.
                     (\<Sum>k\<leftarrow>[0..<K]. a ! j ! i ! k * b ! k ! i ! l * c ! k ! i ! l))
                   [0..<J]) [0..<L]) [0..<I])
         else Inl ValueError)"

definition einsum_ijk_ijkl_ijl :: "arr3 \<Rightarrow> arr4 \<Rightarrow> arr3 \<Rightarrow> error + real" where
  "einsum_ijk_ijkl_ijl a b c =
     (let I = length a; J = dim1 a; K = dim2 a; L = dim2 c
      in if is_arr3 I J K a \<and> is_arr4 I J K L b \<and> is_arr3 I J L c
         then Inr (\<Sum>i\<leftarrow>[0..<I]. \<Sum>j\<leftarrow>[0..<J]. \<Sum>k\<leftarrow>[0..<K]. \<Sum>l\<leftarrow>[0..<L].
                     a ! i ! j ! k * b ! i ! j ! k ! l * c ! i ! j ! l)
         else Inl ValueError)"

definition einsum_ijk_jli_kjl :: "arr3 \<Rightarrow> arr3 \<Rightarrow> error + arr3" where
  "einsum_ijk_jli_kjl a b =
     (let I = length a; J = dim1 a; K = dim2 a; L = dim1 b
      in if is_arr3 I J K a \<and> is_arr3 J L I b
         then Inr (map (\<lambda>k. map (\<lambda>j. map (\<lambda>l.
                     (\<Sum>i\<leftarrow>[0..<I]. a ! i ! j ! k * b ! j ! l ! i))
                   [0..<L]) [0..<J]) [0..<K])
         else Inl ValueError)"

definition einsum_ijk_ijk_ijk :: "arr3 \<Rightarrow> arr3 \<Rightarrow> arr3 \<Rightarrow> error + real" where
  "einsum_ijk_ijk_ijk a b c =
     (let I = length a; J = dim1 a; K = dim2 a
      in if is_arr3 I J K a \<and> is_arr3 I J K b \<and> is_arr3 I J K c
         then Inr (\<Sum>i\<leftarrow>[0..<I]. \<Sum>j\<leftarrow>[0..<J]. \<Sum>k\<leftarrow>[0..<K].
                     a ! i ! j ! k * b ! i ! j ! k * c ! i ! j ! k)
         else Inl ValueError)"

text \<open>The entrywise difference \<^verbatim>\<open>a - b\<close> of two arrays of one shape.\<close>

definition np_sub :: "arr3 \<Rightarrow> arr3 \<Rightarrow> error + arr3" where
  "np_sub a b =
     (let I = length a; J = dim1 a; K = dim2 a
      in if is_arr3 I J K a \<and> is_arr3 I J K b
         then Inr (map (\<lambda>i. map (\<lambda>j. map (\<lambda>k. a ! i ! j ! k - b ! i ! j ! k)
                   [0..<K]) [0..<J]) [0..<I])
         else Inl ValueError)"

subsection \<open>The linear solver\<close>

text \<open>
  \<^verbatim>\<open>np.linalg.solve(a, b)\<close> solves one square system per leading index pair: \<open>a\<close> has
  shape \<open>(P, N, C, C)\<close> and \<open>b\<close>, with one axis less, is a stack of right-hand sides of
  shape \<open>(P, N, C)\<close>. It factorises each matrix by elimination with row exchanges and raises
  \<^verbatim>\<open>LinAlgError\<close> when a pivot column is zero. In exact arithmetic the choice of the pivot
  row does not change the result, so the model takes the first row with a non-zero leading
  coefficient. An equation is its coefficients and its right-hand side.
\<close>

type_synonym eqn = "real list \<times> real"

definition dot :: "real list \<Rightarrow> real list \<Rightarrow> real" where
  "dot xs ys = sum_list (map2 (*) xs ys)"

definition mat_vec :: "arr2 \<Rightarrow> arr1 \<Rightarrow> arr1" where
  "mat_vec A x = map (\<lambda>row. dot row x) A"

definition lead :: "eqn \<Rightarrow> real" where
  "lead r = (case fst r of [] \<Rightarrow> 0 | a # _ \<Rightarrow> a)"

fun split_pivot :: "eqn list \<Rightarrow> (eqn \<times> eqn list) option" where
  "split_pivot [] = None"
| "split_pivot (r # rs) =
     (if lead r \<noteq> 0 then Some (r, rs)
      else (case split_pivot rs of
              None \<Rightarrow> None
            | Some (p, rest) \<Rightarrow> Some (p, r # rest)))"

definition elim_row :: "eqn \<Rightarrow> eqn \<Rightarrow> eqn" where
  "elim_row p r =
     (let m = lead r / lead p
      in (map2 (\<lambda>x y. x - m * y) (tl (fst r)) (tl (fst p)), snd r - m * snd p))"

fun gauss :: "nat \<Rightarrow> eqn list \<Rightarrow> real list option" where
  "gauss 0 rs = Some []"
| "gauss (Suc n) rs =
     (case split_pivot rs of
        None \<Rightarrow> None
      | Some (p, rest) \<Rightarrow>
          (case gauss n (map (elim_row p) rest) of
             None \<Rightarrow> None
           | Some xs \<Rightarrow> Some ((snd p - dot (tl (fst p)) xs) / lead p # xs)))"

definition solve1 :: "arr2 \<Rightarrow> arr1 \<Rightarrow> error + arr1" where
  "solve1 A b =
     (case gauss (length A) (zip A b) of None \<Rightarrow> Inl LinAlgError | Some x \<Rightarrow> Inr x)"

definition linalg_solve :: "arr4 \<Rightarrow> arr3 \<Rightarrow> error + arr3" where
  "linalg_solve a b =
     (let P = length a; N = dim1 a; C = dim2 a
      in if \<not> is_arr4 P N C C a then Inl LinAlgError
         else if \<not> is_arr3 P N C b then Inl ValueError
         else sequence_err (map (\<lambda>i. sequence_err (map (\<lambda>l.
                solve1 (a ! i ! l) (b ! i ! l)) [0..<N])) [0..<P]))"

section \<open>The collaborators\<close>

text \<open>
  The sky model (\<^verbatim>\<open>bfore.skymodel.SkyModel\<close>) is not part of the likelihood: it is the
  pair of its two methods. \<open>fnu nus params\<close> is the mixing matrix of shape
  \<open>(N_comp, N_pol, N_freq)\<close>, or the error the model raises.
\<close>

record skymodel =
  get_param_names :: "string list"
  fnu :: "real list \<Rightarrow> (string \<rightharpoonup> real) \<Rightarrow> error + arr3"

text \<open>
  Of healpy the likelihood uses \<^verbatim>\<open>read_map\<close> (the three fields of one file, or an
  error), \<^verbatim>\<open>get_nside\<close>, \<^verbatim>\<open>nest2ring\<close> (the ring numbers of a sequence of pixels given
  by their nested numbers, or the error healpy raises) and \<^verbatim>\<open>nside2npix\<close>, which is
  \<open>12 * nside\<^sup>2\<close>.
\<close>

record healpy =
  read_map :: "string \<Rightarrow> error + arr2"
  get_nside :: "real list \<Rightarrow> error + int"
  nest2ring :: "int \<Rightarrow> int list \<Rightarrow> error + int list"

definition nside2npix :: "int \<Rightarrow> int" where
  "nside2npix nside = 12 * nside * nside"

section \<open>MapLike\<close>

text \<open>
  The configuration dictionary, whose entries \<^verbatim>\<open>__init__\<close> turns into attributes, and
  the object with the attributes \<^verbatim>\<open>__init__\<close> and \<^verbatim>\<open>read_data\<close> add. The dictionary
  \<open>fixed_pars\<close> is the list of its items.
\<close>

record config_dict =
  fixed_pars :: "(string \<times> real) list"
  var_pars :: "string list"
  nus :: "real list"
  nside_spec :: int
  fpaths_mean :: "string list"
  fpaths_vars :: "string list"

record maplike = config_dict +
  sky :: skymodel
  data_mean :: arr3
  data_vars :: arr3
  nside_base :: int

subsection \<open>Construction\<close>

definition check_parameters :: "maplike \<Rightarrow> error + unit" where
  "check_parameters self =
     (if \<exists>par\<in>set (var_pars self). par \<in> set (map fst (fixed_pars self))
      then Inl (ConfigError ''Check parameter not in both fixed and variable parameters.'')
      else
        (let model_pars = set (get_param_names (sky self));
             config_pars = set (map fst (fixed_pars self)) \<union> set (var_pars self)
         in if \<not> (model_pars = config_pars)
            then Inl (ConfigError ''Parameter mismatch between model and MapLike configuration'')
            else Inr ()))"

text \<open>
  Reading is observable: next to its result, a function that reads returns the paths it
  has asked healpy for, in order. \<^verbatim>\<open>read_hpix_maps\<close> reads the paths one after the other
  and stops at the first failure.
\<close>

fun read_hpix_maps :: "healpy \<Rightarrow> string list \<Rightarrow> string list \<times> (error + arr3)" where
  "read_hpix_maps hp [] = ([], Inr [])"
| "read_hpix_maps hp (fpath # fpaths) =
     (case read_map hp fpath of
        Inl e \<Rightarrow> ([fpath], Inl e)
      | Inr m \<Rightarrow>
          (case read_hpix_maps hp fpaths of
             (reads, Inl e) \<Rightarrow> (fpath # reads, Inl e)
           | (reads, Inr ms) \<Rightarrow> (fpath # reads, Inr (m # ms))))"

definition read_data :: "healpy \<Rightarrow> maplike \<Rightarrow> string list \<times> (error + maplike)" where
  "read_data hp self =
     (case read_hpix_maps hp (fpaths_mean self) of
        (reads, Inl e) \<Rightarrow> (reads, Inl e)
      | (reads, Inr mean) \<Rightarrow>
          (case read_hpix_maps hp (fpaths_vars self) of
             (reads', Inl e) \<Rightarrow> (reads @ reads', Inl e)
           | (reads', Inr vars) \<Rightarrow>
               (reads @ reads',
                (case mean of
                   [] \<Rightarrow> Inl IndexError
                 | m # _ \<Rightarrow>
                     (case m of
                        [] \<Rightarrow> Inl IndexError
                      | row # _ \<Rightarrow>
                          bind_err (get_nside hp row) (\<lambda>nside.
                            Inr (self\<lparr>data_mean := mean, data_vars := vars,
                                      nside_base := nside\<rparr>)))))))"

text \<open>
  \<^verbatim>\<open>__init__\<close>: the object takes the sky model and the entries of the configuration as
  attributes (it has no data yet), checks the parameters, and only then reads the data.
\<close>

definition attach_config :: "config_dict \<Rightarrow> skymodel \<Rightarrow> maplike" where
  "attach_config config skymodel =
     \<lparr>fixed_pars = fixed_pars config, var_pars = var_pars config,
      nus = nus config, nside_spec = nside_spec config,
      fpaths_mean = fpaths_mean config, fpaths_vars = fpaths_vars config,
      sky = skymodel, data_mean = [], data_vars = [], nside_base = 0\<rparr>"

definition MapLike_init ::
  "healpy \<Rightarrow> config_dict \<Rightarrow> skymodel \<Rightarrow> string list \<times> (error + maplike)" where
  "MapLike_init hp config skymodel =
     (let self = attach_config config skymodel
      in case check_parameters self of
           Inl e \<Rightarrow> ([], Inl e)
         | Inr _ \<Rightarrow> read_data hp self)"

subsection \<open>split_data\<close>

text \<open>
  What \<^verbatim>\<open>split_data\<close> tells apart in its argument \<^verbatim>\<open>ipix\<close>: \<^verbatim>\<open>None\<close>, an instance of
  \<^verbatim>\<open>int\<close>, an instance of \<^verbatim>\<open>list\<close>, and every other object (a tuple, a range, a numpy
  integer).
\<close>

datatype ipix_arg = IpixNone | IpixInt int | IpixList "int list" | IpixOther

definition py_range :: "int \<Rightarrow> int \<Rightarrow> int list" where
  "py_range a b = [a..b - 1]"

text \<open>
  \<^verbatim>\<open>data[:, :, inds]\<close>: the pixels \<open>inds\<close> of every map, in the order of \<open>inds\<close>. numpy
  counts a negative index from the end and raises \<^verbatim>\<open>IndexError\<close> outside the axis.
\<close>

definition take_pixels :: "arr3 \<Rightarrow> int list \<Rightarrow> error + arr3" where
  "take_pixels data inds =
     (let n = int (dim2 data)
      in if list_all (\<lambda>j. - n \<le> j \<and> j < n) inds
         then Inr (map (map (\<lambda>row. map (\<lambda>j. row ! nat (if j < 0 then j + n else j)) inds))
                     data)
         else Inl IndexError)"

text \<open>
  A generator is the list of what it yields and the error that ends it, if one does. The
  body of \<^verbatim>\<open>split_data\<close> runs when the generator is iterated.
\<close>

fun yield_regions ::
  "healpy \<Rightarrow> maplike \<Rightarrow> int \<Rightarrow> int list \<Rightarrow> (arr3 \<times> arr3) list \<times> error option" where
  "yield_regions hp self nside_sub [] = ([], None)"
| "yield_regions hp self nside_sub (i # ipixs) =
     (case nest2ring hp (nside_base self)
             (py_range (i * nside_sub) ((i + 1) * nside_sub)) of
        Inl e \<Rightarrow> ([], Some e)
      | Inr inds \<Rightarrow>
          (case take_pixels (data_mean self) inds of
             Inl e \<Rightarrow> ([], Some e)
           | Inr mean \<Rightarrow>
               (case take_pixels (data_vars self) inds of
                  Inl e \<Rightarrow> ([], Some e)
                | Inr vars \<Rightarrow>
                    (case yield_regions hp self nside_sub ipixs of
                       (ys, e) \<Rightarrow> ((mean, vars) # ys, e)))))"

text \<open>
  \<^verbatim>\<open>int(npix_base / npix_spec)\<close> is the true quotient cut to an integer; both counts are
  non-negative, so it is \<open>div\<close>.
\<close>

definition split_data ::
  "healpy \<Rightarrow> maplike \<Rightarrow> ipix_arg \<Rightarrow> (arr3 \<times> arr3) list \<times> error option" where
  "split_data hp self ipix =
     (let npix_spec = nside2npix (nside_spec self);
          npix_base = nside2npix (nside_base self)
      in if npix_spec = 0 then ([], Some ZeroDivisionError)
         else
           (let nside_sub = npix_base div npix_spec
            in case (case ipix of
                       IpixNone \<Rightarrow> Inr (py_range 0 npix_spec)
                     | IpixInt i \<Rightarrow> Inr [i]
                     | IpixList l \<Rightarrow> Inr l
                     | IpixOther \<Rightarrow> Inl (UnboundLocalError ''ipixs'')) of
                 Inl e \<Rightarrow> ([], Some e)
               | Inr ipixs \<Rightarrow> yield_regions hp self nside_sub ipixs))"

subsection \<open>The mixing matrix\<close>

text \<open>
  The dictionary comprehension over \<^verbatim>\<open>zip(self.var_pars, var_pars_list)\<close> keeps the last
  value of a repeated name; \<^verbatim>\<open>update(self.fixed_pars)\<close> then overrides with the fixed
  values.
\<close>

definition spec_params_dict :: "maplike \<Rightarrow> real list \<Rightarrow> (string \<rightharpoonup> real)" where
  "spec_params_dict self var_pars_list =
     map_of (rev (zip (var_pars self) var_pars_list)) ++ map_of (fixed_pars self)"

definition f_matrix :: "maplike \<Rightarrow> real list \<Rightarrow> error + arr3" where
  "f_matrix self var_pars_list =
     fnu (sky self) (nus self) (spec_params_dict self var_pars_list)"

subsection \<open>The amplitude estimator\<close>

definition get_amplitude_covariance ::
  "maplike \<Rightarrow> arr3 \<Rightarrow> real list \<Rightarrow> arr3 option \<Rightarrow> error + arr4" where
  "get_amplitude_covariance self n_ivar_map spec_params f_matrix_arg =
     bind_err (case f_matrix_arg of
                 None \<Rightarrow> f_matrix self spec_params
               | Some F \<Rightarrow> Inr F) (\<lambda>F.
     bind_err (einsum_ijk_ljk_jilk F F) (\<lambda>f_mat_outer.
       einsum_ijkl_lin_injk f_mat_outer n_ivar_map))"

definition get_amplitude_mean ::
  "maplike \<Rightarrow> arr3 \<Rightarrow> arr3 \<Rightarrow> real list \<Rightarrow> arr3 option \<Rightarrow> arr4 option \<Rightarrow> error + arr3" where
  "get_amplitude_mean self d_map n_ivar_map spec_params f_matrix_arg nt_inv_matrix_arg =
     bind_err (case f_matrix_arg of
                 None \<Rightarrow> f_matrix self spec_params
               | Some F \<Rightarrow> Inr F) (\<lambda>F.
     bind_err (case nt_inv_matrix_arg of
                 None \<Rightarrow> get_amplitude_covariance self n_ivar_map spec_params (Some F)
               | Some nt \<Rightarrow> Inr nt) (\<lambda>nt_inv_matrix.
     bind_err (einsum_jik_kil_kil_ilj F n_ivar_map d_map) (\<lambda>y.
       linalg_solve nt_inv_matrix y)))"

subsection \<open>The statistics\<close>

definition marginal_spectral_likelihood ::
  "maplike \<Rightarrow> real list \<Rightarrow> arr3 \<Rightarrow> arr3 \<Rightarrow> error + real" where
  "marginal_spectral_likelihood self spec_params d_map n_ivar_map =
     bind_err (f_matrix self spec_params) (\<lambda>F.
     bind_err (get_amplitude_covariance self n_ivar_map spec_params (Some F))
       (\<lambda>amp_covar_matrix.
     bind_err (get_amplitude_mean self d_map n_ivar_map spec_params (Some F)
                 (Some amp_covar_matrix)) (\<lambda>amp_mean.
       einsum_ijk_ijkl_ijl amp_mean amp_covar_matrix amp_mean)))"

text \<open>
  \<^verbatim>\<open>chi2\<close> hands \<^verbatim>\<open>f_matrix=None\<close> to \<^verbatim>\<open>get_amplitude_mean\<close>, which therefore computes
  the mixing matrix anew from \<open>spec_params\<close>; the matrix the caller gave is used for the
  residual only. The degrees of freedom it computes (line 300) are dropped.
\<close>

definition chi2 ::
  "maplike \<Rightarrow> real list \<Rightarrow> arr3 \<Rightarrow> arr3 \<Rightarrow> arr3 option \<Rightarrow> error + real" where
  "chi2 self spec_params d_map n_ivar_map f_matrix_arg =
     bind_err (case f_matrix_arg of
                 None \<Rightarrow> f_matrix self spec_params
               | Some F \<Rightarrow> Inr F) (\<lambda>F.
     bind_err (get_amplitude_mean self d_map n_ivar_map spec_params None None) (\<lambda>amp_mean.
     bind_err (einsum_ijk_jli_kjl F amp_mean) (\<lambda>model.
     bind_err (np_sub d_map model) (\<lambda>res.
       (let dof = int (len_flatten d_map) - int (length (var_pars self))
                    - int (len_flatten amp_mean)
        in einsum_ijk_ijk_ijk res n_ivar_map res)))))"

text \<open>
  \<^verbatim>\<open>chi2perdof\<close> and \<^verbatim>\<open>pval\<close> read the variable \<^verbatim>\<open>amp_mean\<close>. A name is looked up among
  the variables the function binds (of the arrays: \<^verbatim>\<open>d_map\<close> and \<^verbatim>\<open>n_ivar_map\<close>), then
  among the module's globals, which hold no array; a name found in neither raises
  \<^verbatim>\<open>NameError\<close>.
\<close>

definition lookup_name :: "(string \<times> 'a) list \<Rightarrow> string \<Rightarrow> error + 'a" where
  "lookup_name scope name =
     (case map_of scope name of None \<Rightarrow> Inl (NameError name) | Some v \<Rightarrow> Inr v)"

definition float_div :: "real \<Rightarrow> real \<Rightarrow> error + real" where
  "float_div x y = (if y = 0 then Inl NonFinite else Inr (x / y))"

definition chi2perdof ::
  "maplike \<Rightarrow> real list \<Rightarrow> arr3 \<Rightarrow> arr3 \<Rightarrow> arr3 option \<Rightarrow> error + real" where
  "chi2perdof self spec_params d_map n_ivar_map f_matrix_arg =
     bind_err (chi2 self spec_params d_map n_ivar_map f_matrix_arg) (\<lambda>chi2_val.
     bind_err (lookup_name [(''d_map'', d_map), (''n_ivar_map'', n_ivar_map)] ''amp_mean'')
       (\<lambda>amp_mean.
       (let dof = int (len_flatten d_map) - int (length (var_pars self))
                    - int (len_flatten amp_mean)
        in float_div chi2_val (real_of_int dof))))"

text \<open>\<open>cdf\<close> stands for \<^verbatim>\<open>scipy.stats.chi2.cdf\<close>.\<close>

definition pval ::
  "(real \<Rightarrow> int \<Rightarrow> real) \<Rightarrow> maplike \<Rightarrow> real list \<Rightarrow> arr3 \<Rightarrow> arr3 \<Rightarrow> arr3 option
     \<Rightarrow> error + real" where
  "pval cdf self spec_params d_map n_ivar_map f_matrix_arg =
     bind_err (chi2 self spec_params d_map n_ivar_map f_matrix_arg) (\<lambda>chi2_val.
     bind_err (lookup_name [(''d_map'', d_map), (''n_ivar_map'', n_ivar_map)] ''amp_mean'')
       (\<lambda>amp_mean.
       (let dof = int (len_flatten d_map) - int (length (var_pars self))
                    - int (len_flatten amp_mean)
        in Inr (1 - cdf chi2_val dof))))"

section \<open>What the statistics are said to compute\<close>

text \<open>
  The quantities of the likelihood as the specification words them, for one polarization
  channel \<open>i\<close> and one pixel \<open>l\<close>: the information matrix
  \<open>F\<^sup>T N\<^sup>-\<^sup>1 F\<close>, the weighted data \<open>F\<^sup>T N\<^sup>-\<^sup>1 d\<close> (the contraction of mixing matrix,
  inverse noise variance and data over the frequency axis), the quadratic form of a
  vector and a matrix, and the residual of the data against the amplitudes projected back
  to the frequencies.
\<close>

definition information_matrix :: "arr3 \<Rightarrow> arr3 \<Rightarrow> nat \<Rightarrow> nat \<Rightarrow> arr2" where
  "information_matrix F n_ivar_map i l =
     map (\<lambda>j. map (\<lambda>k.
       (\<Sum>f\<leftarrow>[0..<length n_ivar_map]. F ! j ! i ! f * F ! k ! i ! f * n_ivar_map ! f ! i ! l))
     [0..<length F]) [0..<length F]"

definition weighted_data :: "arr3 \<Rightarrow> arr3 \<Rightarrow> arr3 \<Rightarrow> nat \<Rightarrow> nat \<Rightarrow> arr1" where
  "weighted_data F n_ivar_map d_map i l =
     map (\<lambda>j.
       (\<Sum>k\<leftarrow>[0..<length n_ivar_map]. F ! j ! i ! k * n_ivar_map ! k ! i ! l * d_map ! k ! i ! l))
     [0..<length F]"

definition quad_form :: "arr1 \<Rightarrow> arr2 \<Rightarrow> real" where
  "quad_form x A = dot x (mat_vec A x)"

definition residual :: "arr3 \<Rightarrow> arr3 \<Rightarrow> arr3 \<Rightarrow> nat \<Rightarrow> nat \<Rightarrow> nat \<Rightarrow> real" where
  "residual F amp_mean d_map k j l =
     d_map ! k ! j ! l - (\<Sum>i\<leftarrow>[0..<length F]. F ! i ! j ! k * amp_mean ! j ! l ! i)"

text \<open>
  The scenario of the specification: three frequencies, one polarization channel, one
  pixel and one component with the mixing matrix \<open>[1, 1, 1]\<close>, no spectral parameter,
  and unit inverse noise variance.
\<close>

definition scenario_sky :: skymodel where
  "scenario_sky = \<lparr>get_param_names = [], fnu = (\<lambda>nus params. Inr [[[1, 1, 1]]])\<rparr>"

definition scenario_like :: maplike where
  "scenario_like =
     \<lparr>fixed_pars = [], var_pars = [], nus = [10, 20, 30], nside_spec = 1,
      fpaths_mean = [], fpaths_vars = [], sky = scenario_sky,
      data_mean = [], data_vars = [], nside_base = 1\<rparr>"

definition scenario_n_ivar :: arr3 where
  "scenario_n_ivar = [[[1]], [[1]], [[1]]]"

definition scenario_d :: arr3 where
  "scenario_d = [[[2]], [[2]], [[2]]]"

definition scenario_d_mismatch :: arr3 where
  "scenario_d_mismatch = [[[2]], [[2]], [[4]]]"

text \<open>
  Examples for the claims about configuration and regions: a sky model with the parameters
  of synchrotron and dust, a configuration over given fixed and variable parameters, and a
  healpy whose maps have 12 pixels. At \<open>nside = 1\<close> the ring number of a pixel is its nested
  number; \<open>nest2ring_nside2\<close> lists the ring numbers of the nested pixels \<open>0, \<dots>, 47\<close> at
  \<open>nside = 2\<close>. \<open>split_like spec base mean vars\<close> is a likelihood that has read the maps
  \<open>mean\<close> and \<open>vars\<close> at the resolution \<open>base\<close>, and \<open>ramp n\<close> is the map whose pixel
  \<open>p\<close> holds \<open>p\<close>.
\<close>

definition example_sky :: skymodel where
  "example_sky =
     \<lparr>get_param_names = [''beta_s'', ''nu_ref_s'', ''beta_d'', ''T_d'', ''nu_ref_d''],
      fnu = (\<lambda>nus params. Inr [])\<rparr>"

definition example_config :: "(string \<times> real) list \<Rightarrow> string list \<Rightarrow> config_dict" where
  "example_config fixed var =
     \<lparr>fixed_pars = fixed, var_pars = var, nus = [10, 20], nside_spec = 1,
      fpaths_mean = [''mean_nu010.fits'', ''mean_nu020.fits''],
      fpaths_vars = [''vars_nu010.fits'', ''vars_nu020.fits'']\<rparr>"

definition nest2ring_nside2 :: "int list" where
  "nest2ring_nside2 =
     [13, 5, 4, 0, 15, 7, 6, 1, 17, 9, 8, 2, 19, 11, 10, 3,
      28, 20, 27, 12, 30, 22, 21, 14, 32, 24, 23, 16, 34, 26, 25, 18,
      44, 37, 36, 29, 45, 39, 38, 31, 46, 41, 40, 33, 47, 43, 42, 35]"

definition example_healpy :: healpy where
  "example_healpy =
     \<lparr>read_map = (\<lambda>fpath. Inr (replicate 3 (replicate 12 1))),
      get_nside = (\<lambda>m. if length m = 12 then Inr 1
                      else Inl (ExternalError ''bad number of pixels'')),
      nest2ring = (\<lambda>nside ipix.
        Inr (map (\<lambda>p. if nside = 2 then nest2ring_nside2 ! nat p else p) ipix))\<rparr>"

definition split_like :: "int \<Rightarrow> int \<Rightarrow> arr3 \<Rightarrow> arr3 \<Rightarrow> maplike" where
  "split_like spec base mean vars =
     \<lparr>fixed_pars = [], var_pars = [], nus = [10], nside_spec = spec,
      fpaths_mean = [], fpaths_vars = [], sky = scenario_sky,
      data_mean = mean, data_vars = vars, nside_base = base\<rparr>"

definition ramp :: "nat \<Rightarrow> real list" where
  "ramp n = map real [0..<n]"

definition example_like :: maplike where
  "example_like =
     attach_config
       (example_config [(''nu_ref_s'', 23), (''nu_ref_d'', 353)] [''beta_s'', ''beta_d'', ''T_d''])
       example_sky"

text \<open>
  The pixels \<open>inds\<close> of every map of \<open>data\<close>, for indices that lie on the pixel axis; and
  the ring indices of region \<open>i\<close>, for a function \<open>ring\<close> from nested to ring numbers and
  \<open>nside_sub\<close> pixels per region.
\<close>

definition select_pixels :: "arr3 \<Rightarrow> int list \<Rightarrow> arr3" where
  "select_pixels data inds = map (map (\<lambda>row. map (\<lambda>j. row ! nat j) inds)) data"

definition region_inds :: "(int \<Rightarrow> int) \<Rightarrow> int \<Rightarrow> int \<Rightarrow> int list" where
  "region_inds ring nside_sub i = map ring (py_range (i * nside_sub) ((i + 1) * nside_sub))"

section \<open>Lemmas: failures and shapes\<close>

lemma bind_err_simps [simp]:
  "bind_err (Inl e) f = Inl e" "bind_err (Inr x) f = f x"
  by (simp_all add: bind_err_def)

lemma sequence_err_map_Inr [simp]: "sequence_err (map Inr vs) = Inr vs"
  by (induction vs) simp_all

lemma sequence_err_Inr_D: "sequence_err xs = Inr vs \<Longrightarrow> xs = map Inr vs"
  by (induction xs arbitrary: vs) (auto split: sum.splits)

lemma sequence_err_Inr_iff: "sequence_err xs = Inr vs \<longleftrightarrow> xs = map Inr vs"
  by (auto dest: sequence_err_Inr_D)

lemma sequence_err_Inl: "sequence_err xs = Inl e \<Longrightarrow> Inl e \<in> set xs"
  by (induction xs) (auto split: sum.splits)

lemma sequence_err_map_upt:
  "sequence_err (map f [0..<n]) = Inr vs \<longleftrightarrow> length vs = n \<and> (\<forall>i<n. f i = Inr (vs ! i))"
  unfolding sequence_err_Inr_iff
  by (auto simp: list_eq_iff_nth_eq)

lemma sequence_err_all_Inr:
  "(\<And>i. i < n \<Longrightarrow> \<exists>v. f i = Inr v) \<Longrightarrow> \<exists>vs. sequence_err (map f [0..<n]) = Inr vs"
proof (cases "sequence_err (map f [0..<n])")
  case (Inl e)
  assume h: "\<And>i. i < n \<Longrightarrow> \<exists>v. f i = Inr v"
  from sequence_err_Inl [OF Inl] obtain i where "i < n" "f i = Inl e" by auto
  with h [of i] show ?thesis by simp
next
  case (Inr vs)
  then show ?thesis by blast
qed

lemma is_arr2_nth: "is_arr2 m n a \<Longrightarrow> i < m \<Longrightarrow> length (a ! i) = n"
  by (simp add: is_arr2_def list_all_length)

lemma is_arr3_nth: "is_arr3 l m n a \<Longrightarrow> i < l \<Longrightarrow> is_arr2 m n (a ! i)"
  by (simp add: is_arr3_def list_all_length)

lemma is_arr4_nth: "is_arr4 k l m n a \<Longrightarrow> i < k \<Longrightarrow> is_arr3 l m n (a ! i)"
  by (simp add: is_arr4_def list_all_length)

lemma is_arr3_length: "is_arr3 l m n a \<Longrightarrow> length a = l"
  by (simp add: is_arr3_def)

lemma is_arr4_length: "is_arr4 k l m n a \<Longrightarrow> length a = k"
  by (simp add: is_arr4_def)

lemma is_arr2_dim1: "is_arr2 m n a \<Longrightarrow> 0 < m \<Longrightarrow> dim1 a = n"
  by (cases a) (simp_all add: is_arr2_def dim1_def)

lemma is_arr3_dim1: "is_arr3 l m n a \<Longrightarrow> 0 < l \<Longrightarrow> dim1 a = m"
  by (cases a) (simp_all add: is_arr3_def is_arr2_def dim1_def)

lemma is_arr3_dim2: "is_arr3 l m n a \<Longrightarrow> 0 < l \<Longrightarrow> 0 < m \<Longrightarrow> dim2 a = n"
  by (cases a) (auto simp: is_arr3_def dim2_def dest: is_arr2_dim1)

lemma is_arr4_dim1: "is_arr4 k l m n a \<Longrightarrow> 0 < k \<Longrightarrow> dim1 a = l"
  by (cases a) (simp_all add: is_arr4_def is_arr3_def dim1_def)

lemma is_arr4_dim2: "is_arr4 k l m n a \<Longrightarrow> 0 < k \<Longrightarrow> 0 < l \<Longrightarrow> dim2 a = m"
  by (cases a) (auto simp: is_arr4_def dim2_def dest: is_arr3_dim1)

lemma is_arr4_dim3: "is_arr4 k l m n a \<Longrightarrow> 0 < k \<Longrightarrow> 0 < l \<Longrightarrow> 0 < m \<Longrightarrow> dim3 a = n"
  by (cases a) (auto simp: is_arr4_def dim3_def dest: is_arr3_dim2)

lemma is_arr2_map [simp]: "is_arr2 m n (map (\<lambda>i. map (f i) [0..<n]) [0..<m])"
  by (simp add: is_arr2_def list_all_length)

lemma is_arr3_map [simp]:
  "is_arr3 l m n (map (\<lambda>i. map (\<lambda>j. map (f i j) [0..<n]) [0..<m]) [0..<l])"
  by (simp add: is_arr3_def list_all_length)

lemma is_arr4_map [simp]:
  "is_arr4 k l m n (map (\<lambda>h. map (\<lambda>i. map (\<lambda>j. map (f h i j) [0..<n]) [0..<m]) [0..<l]) [0..<k])"
  by (simp add: is_arr4_def list_all_length)

lemma is_arr3_I:
  "length a = l \<Longrightarrow> (\<And>i. i < l \<Longrightarrow> length (a ! i) = m) \<Longrightarrow>
   (\<And>i j. i < l \<Longrightarrow> j < m \<Longrightarrow> length (a ! i ! j) = n) \<Longrightarrow> is_arr3 l m n a"
  by (simp add: is_arr3_def is_arr2_def list_all_length)

lemma sum_list_upt_cong:
  "(\<And>i. i < n \<Longrightarrow> f i = g i) \<Longrightarrow> (\<Sum>i\<leftarrow>[0..<n]. f i) = (\<Sum>i\<leftarrow>[0..<n]. g i)"
  by (rule arg_cong [where f = sum_list]) (simp add: list_eq_iff_nth_eq)

section \<open>Lemmas: the linear solver\<close>

lemma dot_Nil [simp]: "dot [] ys = 0" "dot xs [] = 0"
  by (simp_all add: dot_def)

lemma dot_Cons [simp]: "dot (x # xs) (y # ys) = x * y + dot xs ys"
  by (simp add: dot_def)

lemma dot_replicate_zero [simp]: "dot xs (replicate n 0) = 0"
  by (induction xs arbitrary: n) (case_tac n; simp)+

lemma dot_nth:
  "length xs = n \<Longrightarrow> length ys = n \<Longrightarrow> dot xs ys = (\<Sum>i\<leftarrow>[0..<n]. xs ! i * ys ! i)"
proof -
  assume l: "length xs = n" "length ys = n"
  have "map2 (*) xs ys = map (\<lambda>i. xs ! i * ys ! i) [0..<n]"
    using l by (intro nth_equalityI) simp_all
  then show ?thesis by (simp add: dot_def)
qed

lemma split_pivot_Some:
  "split_pivot rs = Some (p, rest) \<Longrightarrow>
     lead p \<noteq> 0 \<and> set rs = insert p (set rest) \<and> length rs = Suc (length rest)"
  by (induction rs arbitrary: p rest) (auto split: if_splits option.splits)

lemma split_pivot_None: "split_pivot rs = None \<Longrightarrow> r \<in> set rs \<Longrightarrow> lead r = 0"
  by (induction rs) (auto split: if_splits option.splits)

lemma dot_elim:
  "length a = length b \<Longrightarrow> length b = length xs \<Longrightarrow>
     dot (map2 (\<lambda>x y. x - m * y) a b) xs = dot a xs - m * dot b xs"
  by (induction a b xs rule: list_induct3) (simp_all add: algebra_simps)

lemma dot_add:
  "length r = length x \<Longrightarrow> length x = length k \<Longrightarrow>
     dot r (map2 (+) x k) = dot r x + dot r k"
  by (induction r x k rule: list_induct3) (simp_all add: algebra_simps)

lemma map2_add_same:
  "length x = length k \<Longrightarrow> map2 (+) x k = x \<Longrightarrow> k = replicate (length k) (0::real)"
  by (induction x k rule: list_induct2) simp_all

lemma eqn_split: "length (fst r) = Suc n \<Longrightarrow> fst r = lead r # tl (fst r)"
  by (cases "fst r") (simp_all add: lead_def)

lemma elim_row_sat:
  assumes lr: "length (fst r) = Suc n" and lp: "length (fst p) = Suc n"
    and lx: "length xs = n" and p0: "lead p \<noteq> 0"
    and psat: "dot (fst p) (x # xs) = snd p"
  shows "dot (fst (elim_row p r)) xs = snd (elim_row p r) \<longleftrightarrow> dot (fst r) (x # xs) = snd r"
proof -
  have r: "fst r = lead r # tl (fst r)" and p: "fst p = lead p # tl (fst p)"
    using lr lp by (auto dest: eqn_split)
  have d: "dot (fst (elim_row p r)) xs
             = dot (tl (fst r)) xs - (lead r / lead p) * dot (tl (fst p)) xs"
    using lr lp lx dot_elim [of "tl (fst r)" "tl (fst p)" xs "lead r / lead p"]
    by (simp add: elim_row_def Let_def)
  have ps: "lead p * x + dot (tl (fst p)) xs = snd p"
    using psat by (subst (asm) p) simp
  have rs: "dot (fst r) (x # xs) = lead r * x + dot (tl (fst r)) xs"
    by (subst r) simp
  show ?thesis
    unfolding d rs using p0 ps by (simp add: elim_row_def Let_def field_simps) algebra
qed

lemma gauss_sound:
  "gauss n rs = Some xs \<Longrightarrow> length rs = n \<Longrightarrow> (\<forall>r\<in>set rs. length (fst r) = n) \<Longrightarrow>
     length xs = n \<and> (\<forall>r\<in>set rs. dot (fst r) xs = snd r)"
proof (induction n arbitrary: rs xs)
  case 0
  then show ?case by simp
next
  case (Suc n)
  from Suc.prems(1) obtain p rest ys where
    sp: "split_pivot rs = Some (p, rest)" and
    g: "gauss n (map (elim_row p) rest) = Some ys" and
    xs: "xs = (snd p - dot (tl (fst p)) ys) / lead p # ys"
    by (auto split: option.splits)
  from split_pivot_Some [OF sp] have p0: "lead p \<noteq> 0"
    and rs: "set rs = insert p (set rest)" and len: "length rs = Suc (length rest)"
    by auto
  have lp: "length (fst p) = Suc n" using Suc.prems(3) rs by auto
  have lrest: "\<forall>r\<in>set rest. length (fst r) = Suc n" using Suc.prems(3) rs by auto
  have l': "\<forall>r\<in>set (map (elim_row p) rest). length (fst r) = n"
    using lrest lp by (auto simp: elim_row_def Let_def)
  have "length (map (elim_row p) rest) = n" using len Suc.prems(2) by simp
  from Suc.IH [OF g this l'] have ly: "length ys = n"
    and sat: "\<forall>r\<in>set rest. dot (fst (elim_row p r)) ys = snd (elim_row p r)"
    by auto
  define x where "x = (snd p - dot (tl (fst p)) ys) / lead p"
  have psat: "dot (fst p) (x # ys) = snd p"
    using p0 by (subst eqn_split [OF lp]) (simp add: x_def)
  have "dot (fst r) (x # ys) = snd r" if "r \<in> set rest" for r
    using elim_row_sat [OF _ lp ly p0 psat, of r] lrest sat that by blast
  with psat rs ly show ?case by (auto simp: xs x_def)
qed

lemma gauss_unique:
  "gauss n rs = Some xs \<Longrightarrow> length rs = n \<Longrightarrow> (\<forall>r\<in>set rs. length (fst r) = n) \<Longrightarrow>
     length ys = n \<Longrightarrow> (\<forall>r\<in>set rs. dot (fst r) ys = snd r) \<Longrightarrow> ys = xs"
proof (induction n arbitrary: rs xs ys)
  case 0
  then show ?case by simp
next
  case (Suc n)
  from Suc.prems(1) obtain p rest zs where
    sp: "split_pivot rs = Some (p, rest)" and
    g: "gauss n (map (elim_row p) rest) = Some zs" and
    xs: "xs = (snd p - dot (tl (fst p)) zs) / lead p # zs"
    by (auto split: option.splits)
  from split_pivot_Some [OF sp] have p0: "lead p \<noteq> 0"
    and rs: "set rs = insert p (set rest)" and len: "length rs = Suc (length rest)"
    by auto
  have lp: "length (fst p) = Suc n" using Suc.prems(3) rs by auto
  have lrest: "\<forall>r\<in>set rest. length (fst r) = Suc n" using Suc.prems(3) rs by auto
  have l': "\<forall>r\<in>set (map (elim_row p) rest). length (fst r) = n"
    using lrest lp by (auto simp: elim_row_def Let_def)
  have len': "length (map (elim_row p) rest) = n" using len Suc.prems(2) by simp
  from Suc.prems(4) obtain y ys' where ys: "ys = y # ys'" and ly: "length ys' = n"
    by (cases ys) auto
  have psat: "dot (fst p) (y # ys') = snd p" using Suc.prems(5) rs ys by auto
  have "dot (fst (elim_row p r)) ys' = snd (elim_row p r)" if "r \<in> set rest" for r
    using elim_row_sat [OF _ lp ly p0 psat, of r] lrest Suc.prems(5) rs ys that by auto
  then have "\<forall>r\<in>set (map (elim_row p) rest). dot (fst r) ys' = snd r" by auto
  from Suc.IH [OF g len' l' ly this] have eq: "ys' = zs" .
  have "lead p * y + dot (tl (fst p)) zs = snd p"
    using psat eq by (subst (asm) eqn_split [OF lp]) simp
  then have "y = (snd p - dot (tl (fst p)) zs) / lead p"
    using p0 by (simp add: field_simps)
  with eq ys xs show ?case by simp
qed

lemma gauss_None_kernel:
  "gauss n rs = None \<Longrightarrow> length rs = n \<Longrightarrow> (\<forall>r\<in>set rs. length (fst r) = n) \<Longrightarrow>
     \<exists>k. length k = n \<and> k \<noteq> replicate n 0 \<and> (\<forall>r\<in>set rs. dot (fst r) k = 0)"
proof (induction n arbitrary: rs)
  case 0
  then show ?case by simp
next
  case (Suc n)
  show ?case
  proof (cases "split_pivot rs")
    case None
    have "dot (fst r) (1 # replicate n 0) = 0" if "r \<in> set rs" for r
    proof -
      have "lead r = 0" using split_pivot_None [OF None that] .
      moreover have "fst r = lead r # tl (fst r)"
        using Suc.prems(3) that by (auto dest: eqn_split)
      ultimately show ?thesis by (metis dot_Cons dot_replicate_zero mult_zero_left add_0)
    qed
    then show ?thesis
      by (intro exI [of _ "1 # replicate n 0"]) simp
  next
    case (Some a)
    then obtain p rest where sp: "split_pivot rs = Some (p, rest)" by (cases a) auto
    with Suc.prems(1) have g: "gauss n (map (elim_row p) rest) = None"
      by (auto split: option.splits)
    from split_pivot_Some [OF sp] have p0: "lead p \<noteq> 0"
      and rs: "set rs = insert p (set rest)" and len: "length rs = Suc (length rest)"
      by auto
    have lp: "length (fst p) = Suc n" using Suc.prems(3) rs by auto
    have lrest: "\<forall>r\<in>set rest. length (fst r) = Suc n" using Suc.prems(3) rs by auto
    have l': "\<forall>r\<in>set (map (elim_row p) rest). length (fst r) = n"
      using lrest lp by (auto simp: elim_row_def Let_def)
    have len': "length (map (elim_row p) rest) = n" using len Suc.prems(2) by simp
    from Suc.IH [OF g len' l'] obtain k where lk: "length k = n"
      and nz: "k \<noteq> replicate n 0"
      and ker: "\<forall>r\<in>set rest. dot (fst (elim_row p r)) k = 0"
      by auto
    define x where "x = - dot (tl (fst p)) k / lead p"
    have psat: "dot (fst p) (x # k) = 0"
      using p0 by (subst eqn_split [OF lp]) (simp add: x_def)
    have "dot (fst r) (x # k) = 0" if "r \<in> set rest" for r
    proof -
      have lr: "length (fst r) = Suc n" using lrest that by auto
      have "dot (fst (elim_row p r)) k
              = dot (tl (fst r)) k - (lead r / lead p) * dot (tl (fst p)) k"
        using lr lp lk dot_elim [of "tl (fst r)" "tl (fst p)" k "lead r / lead p"]
        by (simp add: elim_row_def Let_def)
      with ker that have "dot (tl (fst r)) k = (lead r / lead p) * dot (tl (fst p)) k"
        by simp
      then have "dot (fst r) (x # k) = lead r * x + (lead r / lead p) * dot (tl (fst p)) k"
        by (subst eqn_split [OF lr]) simp
      also have "\<dots> = 0" using p0 by (simp add: x_def field_simps)
      finally show ?thesis .
    qed
    with psat rs have "\<forall>r\<in>set rs. dot (fst r) (x # k) = 0" by auto
    moreover have "x # k \<noteq> replicate (Suc n) 0" using nz by simp
    ultimately show ?thesis using lk by (intro exI [of _ "x # k"]) simp
  qed
qed

text \<open>The system of a matrix and a right-hand side, as equations.\<close>

lemma mat_vec_eq_iff:
  "length A = length b \<Longrightarrow>
     mat_vec A x = b \<longleftrightarrow> (\<forall>r\<in>set (zip A b). dot (fst r) x = snd r)"
proof -
  assume l: "length A = length b"
  have "mat_vec A x = b \<longleftrightarrow> (\<forall>i<length b. dot (A ! i) x = b ! i)"
    using l by (auto simp: mat_vec_def list_eq_iff_nth_eq)
  also have "\<dots> \<longleftrightarrow> (\<forall>r\<in>set (zip A b). dot (fst r) x = snd r)"
    using l by (fastforce simp: set_zip)
  finally show ?thesis .
qed

lemma zip_rows_length:
  "is_arr2 C C A \<Longrightarrow> length b = C \<Longrightarrow>
     length (zip A b) = C \<and> (\<forall>r\<in>set (zip A b). length (fst r) = C)"
  by (auto simp: is_arr2_def list_all_length set_zip)

lemma solve1_Inr:
  assumes A: "is_arr2 C C A" and b: "length b = C" and s: "solve1 A b = Inr x"
  shows "length x = C \<and> mat_vec A x = b \<and>
         (\<forall>y. length y = C \<and> mat_vec A y = b \<longrightarrow> y = x)"
proof -
  have lA: "length A = C" "length A = length b" using A b by (simp_all add: is_arr2_def)
  from s have g: "gauss C (zip A b) = Some x"
    by (simp add: solve1_def lA split: option.splits)
  note z = zip_rows_length [OF A b]
  from gauss_sound [OF g] z have "length x = C" "mat_vec A x = b"
    by (simp_all add: mat_vec_eq_iff [OF lA(2)])
  moreover have "y = x" if "length y = C" "mat_vec A y = b" for y
    using gauss_unique [OF g _ _ that(1)] z that(2) by (simp add: mat_vec_eq_iff [OF lA(2)])
  ultimately show ?thesis by blast
qed

lemma solve1_Inl: "solve1 A b = Inl e \<Longrightarrow> e = LinAlgError"
  by (simp add: solve1_def split: option.splits)

lemma solve1_complete:
  assumes A: "is_arr2 C C A" and b: "length b = C"
    and x: "length x = C" "mat_vec A x = b"
    and uniq: "\<And>y. length y = C \<Longrightarrow> mat_vec A y = b \<Longrightarrow> y = x"
  shows "\<exists>z. solve1 A b = Inr z"
proof (rule ccontr)
  assume "\<not> ?thesis"
  have lA: "length A = C" "length A = length b" using A b by (simp_all add: is_arr2_def)
  from \<open>\<not> ?thesis\<close> have g: "gauss C (zip A b) = None"
    by (simp add: solve1_def lA split: option.splits)
  note z = zip_rows_length [OF A b]
  from gauss_None_kernel [OF g] z obtain k where lk: "length k = C"
    and nz: "k \<noteq> replicate C 0" and ker: "\<forall>r\<in>set (zip A b). dot (fst r) k = 0"
    by auto
  let ?y = "map2 (+) x k"
  have ly: "length ?y = C" using x(1) lk by simp
  have "dot (fst r) ?y = snd r" if "r \<in> set (zip A b)" for r
  proof -
    have "length (fst r) = length x" using z that x(1) by simp
    then have "dot (fst r) ?y = dot (fst r) x + dot (fst r) k"
      using dot_add [of "fst r" x k] x(1) lk by simp
    with ker that x(2) show ?thesis by (simp add: mat_vec_eq_iff [OF lA(2)])
  qed
  then have "mat_vec A ?y = b" by (simp add: mat_vec_eq_iff [OF lA(2)])
  from uniq [OF ly this] have "k = replicate (length k) 0"
    using map2_add_same [of x k] x(1) lk by simp
  with nz lk show False by simp
qed

lemma linalg_solve_unfold:
  assumes a: "is_arr4 P N C C a" and b: "is_arr3 P N C b" and pos: "0 < P" "0 < N"
  shows "linalg_solve a b =
           sequence_err (map (\<lambda>i. sequence_err (map (\<lambda>l.
             solve1 (a ! i ! l) (b ! i ! l)) [0..<N])) [0..<P])"
  using a b by (simp add: linalg_solve_def Let_def is_arr4_length [OF a]
      is_arr4_dim1 [OF a pos(1)] is_arr4_dim2 [OF a pos])

lemma linalg_solve_Inr_iff:
  assumes a: "is_arr4 P N C C a" and b: "is_arr3 P N C b" and pos: "0 < P" "0 < N"
  shows "linalg_solve a b = Inr T \<longleftrightarrow>
           length T = P \<and> (\<forall>i<P. length (T ! i) = N \<and>
             (\<forall>l<N. solve1 (a ! i ! l) (b ! i ! l) = Inr (T ! i ! l)))"
  unfolding linalg_solve_unfold [OF assms]
  by (simp only: sequence_err_map_upt)

lemma linalg_solve_Inl:
  assumes a: "is_arr4 P N C C a" and b: "is_arr3 P N C b" and pos: "0 < P" "0 < N"
    and s: "linalg_solve a b = Inl e"
  shows "e = LinAlgError"
proof -
  from s have "Inl e \<in> set (map (\<lambda>i. sequence_err (map (\<lambda>l.
             solve1 (a ! i ! l) (b ! i ! l)) [0..<N])) [0..<P])"
    unfolding linalg_solve_unfold [OF a b pos] by (rule sequence_err_Inl)
  then obtain i where
    "sequence_err (map (\<lambda>l. solve1 (a ! i ! l) (b ! i ! l)) [0..<N]) = Inl e"
    by auto
  from sequence_err_Inl [OF this] obtain l where "solve1 (a ! i ! l) (b ! i ! l) = Inl e"
    by auto
  then show ?thesis by (rule solve1_Inl)
qed

lemma slice_shapes:
  assumes a: "is_arr4 P N C C a" and b: "is_arr3 P N C b" and i: "i < P" and l: "l < N"
  shows "is_arr2 C C (a ! i ! l)" "length (b ! i ! l) = C"
  using is_arr3_nth [OF is_arr4_nth [OF a i] l] is_arr2_nth [OF is_arr3_nth [OF b i] l]
  by simp_all

lemma linalg_solve_sound:
  assumes a: "is_arr4 P N C C a" and b: "is_arr3 P N C b" and pos: "0 < P" "0 < N"
    and s: "linalg_solve a b = Inr T"
  shows "is_arr3 P N C T"
    and "i < P \<Longrightarrow> l < N \<Longrightarrow> mat_vec (a ! i ! l) (T ! i ! l) = b ! i ! l"
    and "i < P \<Longrightarrow> l < N \<Longrightarrow> length y = C \<Longrightarrow> mat_vec (a ! i ! l) y = b ! i ! l
           \<Longrightarrow> y = T ! i ! l"
proof -
  from s have T: "length T = P" "\<And>i. i < P \<Longrightarrow> length (T ! i) = N"
    "\<And>i l. i < P \<Longrightarrow> l < N \<Longrightarrow> solve1 (a ! i ! l) (b ! i ! l) = Inr (T ! i ! l)"
    unfolding linalg_solve_Inr_iff [OF a b pos] by auto
  have sl: "length (T ! i ! l) = C \<and> mat_vec (a ! i ! l) (T ! i ! l) = b ! i ! l \<and>
      (\<forall>y. length y = C \<and> mat_vec (a ! i ! l) y = b ! i ! l \<longrightarrow> y = T ! i ! l)"
    if "i < P" "l < N" for i l
    using solve1_Inr [OF slice_shapes [OF a b that] T(3) [OF that]] .
  show "is_arr3 P N C T"
  proof (rule is_arr3_I)
    show "length T = P" by (rule T(1))
    show "length (T ! i) = N" if "i < P" for i using T(2) that by blast
    show "length (T ! i ! j) = C" if "i < P" "j < N" for i j using sl that by blast
  qed
  show "i < P \<Longrightarrow> l < N \<Longrightarrow> mat_vec (a ! i ! l) (T ! i ! l) = b ! i ! l"
    using sl by blast
  show "i < P \<Longrightarrow> l < N \<Longrightarrow> length y = C \<Longrightarrow> mat_vec (a ! i ! l) y = b ! i ! l
           \<Longrightarrow> y = T ! i ! l"
    using sl by blast
qed

lemma linalg_solve_complete:
  assumes a: "is_arr4 P N C C a" and b: "is_arr3 P N C b" and pos: "0 < P" "0 < N"
    and ex: "\<And>i l. i < P \<Longrightarrow> l < N \<Longrightarrow>
               \<exists>!x. length x = C \<and> mat_vec (a ! i ! l) x = b ! i ! l"
  shows "\<exists>T. linalg_solve a b = Inr T"
proof -
  have "\<exists>v. solve1 (a ! i ! l) (b ! i ! l) = Inr v" if "i < P" "l < N" for i l
  proof -
    from ex [OF that] obtain x where x: "length x = C" "mat_vec (a ! i ! l) x = b ! i ! l"
      and u: "\<And>y. length y = C \<Longrightarrow> mat_vec (a ! i ! l) y = b ! i ! l \<Longrightarrow> y = x"
      by blast
    show ?thesis by (rule solve1_complete [OF slice_shapes [OF a b that] x u])
  qed
  then have "\<exists>v. sequence_err (map (\<lambda>l. solve1 (a ! i ! l) (b ! i ! l)) [0..<N]) = Inr v"
    if "i < P" for i
    using that by (rule_tac sequence_err_all_Inr) blast
  then show ?thesis
    unfolding linalg_solve_unfold [OF a b pos] by (rule_tac sequence_err_all_Inr) blast
qed

section \<open>Lemmas: the contractions of the estimator and the statistics\<close>

lemma einsum_outer:
  assumes F: "is_arr3 C P K F" and pos: "0 < C" "0 < P"
  shows "einsum_ijk_ljk_jilk F F =
           Inr (map (\<lambda>j. map (\<lambda>i. map (\<lambda>l. map (\<lambda>k. F ! i ! j ! k * F ! l ! j ! k)
                  [0..<K]) [0..<C]) [0..<C]) [0..<P])"
  using F by (simp add: einsum_ijk_ljk_jilk_def Let_def is_arr3_length [OF F]
      is_arr3_dim1 [OF F pos(1)] is_arr3_dim2 [OF F pos])

lemma get_amplitude_covariance_eq:
  assumes F: "is_arr3 C P K F" and n: "is_arr3 K P N n_ivar_map"
    and pos: "0 < C" "0 < P" "0 < K"
  shows "get_amplitude_covariance self n_ivar_map spec_params (Some F) =
           Inr (map (\<lambda>i. map (\<lambda>l. information_matrix F n_ivar_map i l) [0..<N]) [0..<P])"
proof -
  let ?o = "map (\<lambda>j. map (\<lambda>i. map (\<lambda>l. map (\<lambda>k. F ! i ! j ! k * F ! l ! j ! k)
                  [0..<K]) [0..<C]) [0..<C]) [0..<P]"
  have o: "is_arr4 P C C K ?o" by simp
  have dims: "length ?o = P" "dim1 ?o = C" "dim2 ?o = C" "dim3 ?o = K" "dim2 n_ivar_map = N"
    using is_arr4_dim1 [OF o pos(2)] is_arr4_dim2 [OF o pos(2,1)]
      is_arr4_dim3 [OF o pos(2,1,1)] is_arr3_dim2 [OF n pos(3,2)] by simp_all
  have "einsum_ijkl_lin_injk ?o n_ivar_map =
          Inr (map (\<lambda>i. map (\<lambda>l. information_matrix F n_ivar_map i l) [0..<N]) [0..<P])"
    unfolding einsum_ijkl_lin_injk_def Let_def dims
    using o n
    by (auto simp: information_matrix_def is_arr3_length [OF F] is_arr3_length [OF n]
        cong: map_cong intro!: sum_list_upt_cong)
  then show ?thesis
    by (simp add: get_amplitude_covariance_def einsum_outer [OF F pos(1,2)])
qed

lemma weighted_eq:
  assumes F: "is_arr3 C P K F" and n: "is_arr3 K P N n_ivar_map"
    and d: "is_arr3 K P N d_map" and pos: "0 < P" "0 < K"
  shows "einsum_jik_kil_kil_ilj F n_ivar_map d_map =
           Inr (map (\<lambda>i. map (\<lambda>l. weighted_data F n_ivar_map d_map i l) [0..<N]) [0..<P])"
  using F n d
  by (simp add: einsum_jik_kil_kil_ilj_def Let_def weighted_data_def is_arr3_length [OF F]
      is_arr3_length [OF n] is_arr3_dim1 [OF n pos(2)] is_arr3_dim2 [OF n pos(2,1)])

lemma f_matrix_arg_cases:
  "f_matrix_arg = Some F \<or> (f_matrix_arg = None \<and> f_matrix self spec_params = Inr F) \<Longrightarrow>
     (case f_matrix_arg of None \<Rightarrow> f_matrix self spec_params | Some F \<Rightarrow> Inr F) = Inr F"
  by auto

lemma get_amplitude_covariance_arg:
  "f_matrix_arg = Some F \<or> (f_matrix_arg = None \<and> f_matrix self spec_params = Inr F) \<Longrightarrow>
     get_amplitude_covariance self n_ivar_map spec_params f_matrix_arg =
     get_amplitude_covariance self n_ivar_map spec_params (Some F)"
  by (auto simp: get_amplitude_covariance_def)

lemma get_amplitude_mean_unfold:
  assumes F: "is_arr3 C P K F" and n: "is_arr3 K P N n_ivar_map"
    and d: "is_arr3 K P N d_map" and pos: "0 < C" "0 < P" "0 < K"
    and arg: "f_matrix_arg = Some F \<or>
              (f_matrix_arg = None \<and> f_matrix self spec_params = Inr F)"
  shows "get_amplitude_mean self d_map n_ivar_map spec_params f_matrix_arg None =
           linalg_solve
             (map (\<lambda>i. map (\<lambda>l. information_matrix F n_ivar_map i l) [0..<N]) [0..<P])
             (map (\<lambda>i. map (\<lambda>l. weighted_data F n_ivar_map d_map i l) [0..<N]) [0..<P])"
  by (simp add: get_amplitude_mean_def f_matrix_arg_cases [OF arg]
      get_amplitude_covariance_eq [OF F n pos] weighted_eq [OF F n d pos(2,3)])

lemma information_matrix_arr4:
  "length F = C \<Longrightarrow>
     is_arr4 P N C C (map (\<lambda>i. map (\<lambda>l. information_matrix F n i l) [0..<N]) [0..<P])"
  by (simp add: is_arr4_def is_arr3_def is_arr2_def list_all_length information_matrix_def)

lemma weighted_data_arr3:
  "length F = C \<Longrightarrow>
     is_arr3 P N C (map (\<lambda>i. map (\<lambda>l. weighted_data F n d i l) [0..<N]) [0..<P])"
  by (simp add: is_arr3_def is_arr2_def list_all_length weighted_data_def)

lemma get_amplitude_mean_given:
  assumes F: "is_arr3 C P K F" and n: "is_arr3 K P N n_ivar_map"
    and d: "is_arr3 K P N d_map" and pos: "0 < C" "0 < P" "0 < K"
    and fm: "f_matrix self spec_params = Inr F"
    and cov: "get_amplitude_covariance self n_ivar_map spec_params (Some F) = Inr cov"
  shows "get_amplitude_mean self d_map n_ivar_map spec_params (Some F) (Some cov) =
         get_amplitude_mean self d_map n_ivar_map spec_params None None"
  using fm cov by (simp add: get_amplitude_mean_def)

lemma quad_form_nth:
  assumes x: "length x = C" and A: "is_arr2 C C A"
  shows "quad_form x A = (\<Sum>k\<leftarrow>[0..<C]. \<Sum>l\<leftarrow>[0..<C]. x ! k * A ! k ! l * x ! l)"
proof -
  have lA: "length A = C" using A by (simp add: is_arr2_def)
  have "quad_form x A = (\<Sum>k\<leftarrow>[0..<C]. x ! k * dot (A ! k) x)"
    unfolding quad_form_def
    by (subst dot_nth [of x C]) (auto simp: x mat_vec_def lA intro!: sum_list_upt_cong)
  also have "\<dots> = (\<Sum>k\<leftarrow>[0..<C]. \<Sum>l\<leftarrow>[0..<C]. x ! k * A ! k ! l * x ! l)"
  proof (rule sum_list_upt_cong)
    fix k assume k: "k < C"
    have "dot (A ! k) x = (\<Sum>l\<leftarrow>[0..<C]. A ! k ! l * x ! l)"
      by (rule dot_nth [OF is_arr2_nth [OF A k] x])
    then show "x ! k * dot (A ! k) x = (\<Sum>l\<leftarrow>[0..<C]. x ! k * A ! k ! l * x ! l)"
      by (simp add: sum_list_const_mult mult.assoc)
  qed
  finally show ?thesis .
qed

lemma einsum_quad:
  assumes T: "is_arr3 P N C T" and cov: "is_arr4 P N C C cov" and pos: "0 < P" "0 < N"
  shows "einsum_ijk_ijkl_ijl T cov T =
           Inr (\<Sum>i\<leftarrow>[0..<P]. \<Sum>l\<leftarrow>[0..<N]. quad_form (T ! i ! l) (cov ! i ! l))"
proof -
  have dims: "length T = P" "dim1 T = N" "dim2 T = C"
    using is_arr3_length [OF T] is_arr3_dim1 [OF T pos(1)] is_arr3_dim2 [OF T pos] by simp_all
  have "(\<Sum>k\<leftarrow>[0..<C]. \<Sum>m\<leftarrow>[0..<C]. T ! i ! l ! k * cov ! i ! l ! k ! m * T ! i ! l ! m)
          = quad_form (T ! i ! l) (cov ! i ! l)" if "i < P" "l < N" for i l
    using quad_form_nth [OF is_arr2_nth [OF is_arr3_nth [OF T that(1)] that(2)]
        is_arr3_nth [OF is_arr4_nth [OF cov that(1)] that(2)]] by simp
  then show ?thesis
    unfolding einsum_ijk_ijkl_ijl_def Let_def dims using T cov
    by (auto intro!: sum_list_upt_cong)
qed

lemma residual_array:
  assumes F: "is_arr3 C P K Fres" and T: "is_arr3 P N C T" and d: "is_arr3 K P N d_map"
    and pos: "0 < C" "0 < P" "0 < K"
  shows "bind_err (einsum_ijk_jli_kjl Fres T) (np_sub d_map) =
           Inr (map (\<lambda>k. map (\<lambda>j. map (\<lambda>l. residual Fres T d_map k j l)
                  [0..<N]) [0..<P]) [0..<K])"
proof -
  let ?m = "map (\<lambda>k. map (\<lambda>j. map (\<lambda>l. (\<Sum>i\<leftarrow>[0..<C]. Fres ! i ! j ! k * T ! j ! l ! i))
                  [0..<N]) [0..<P]) [0..<K]"
  have m: "einsum_ijk_jli_kjl Fres T = Inr ?m"
    using F T by (simp add: einsum_ijk_jli_kjl_def Let_def is_arr3_length [OF F]
        is_arr3_dim1 [OF F pos(1)] is_arr3_dim2 [OF F pos(1,2)] is_arr3_dim1 [OF T pos(2)])
  have mm: "is_arr3 K P N ?m" by simp
  have "np_sub d_map ?m =
          Inr (map (\<lambda>k. map (\<lambda>j. map (\<lambda>l. residual Fres T d_map k j l)
                 [0..<N]) [0..<P]) [0..<K])"
    using d mm
    by (simp add: np_sub_def Let_def is_arr3_length [OF d] is_arr3_dim1 [OF d pos(3)]
        is_arr3_dim2 [OF d pos(3,2)] residual_def is_arr3_length [OF F] cong: map_cong)
  with m show ?thesis by simp
qed

lemma einsum_weighted_squares:
  assumes n: "is_arr3 K P N n_ivar_map" and pos: "0 < P" "0 < K"
  shows "einsum_ijk_ijk_ijk
           (map (\<lambda>k. map (\<lambda>j. map (\<lambda>l. r k j l) [0..<N]) [0..<P]) [0..<K]) n_ivar_map
           (map (\<lambda>k. map (\<lambda>j. map (\<lambda>l. r k j l) [0..<N]) [0..<P]) [0..<K]) =
         Inr (\<Sum>k\<leftarrow>[0..<K]. \<Sum>j\<leftarrow>[0..<P]. \<Sum>l\<leftarrow>[0..<N].
                r k j l * n_ivar_map ! k ! j ! l * r k j l)"
proof -
  let ?r = "map (\<lambda>k. map (\<lambda>j. map (\<lambda>l. r k j l) [0..<N]) [0..<P]) [0..<K]"
  have r: "is_arr3 K P N ?r" by simp
  have dims: "length ?r = K" "dim1 ?r = P" "dim2 ?r = N"
    using is_arr3_dim1 [OF r pos(2)] is_arr3_dim2 [OF r pos(2,1)] by simp_all
  show ?thesis
    unfolding einsum_ijk_ijk_ijk_def Let_def dims using n r
    by (auto intro!: sum_list_upt_cong)
qed

lemma lookup_amp_mean:
  "lookup_name [(''d_map'', d_map), (''n_ivar_map'', n_ivar_map)] ''amp_mean''
     = Inl (NameError ''amp_mean'')"
  by (simp add: lookup_name_def)

section \<open>Lemmas: pairing names with values\<close>

lemma zip_take_longer:
  "zip xs ys = zip xs (take (length xs) ys)"
  by (induction xs ys rule: list_induct2') auto

lemma zip_take_both:
  "zip xs ys = zip (take (length ys) xs) (take (length xs) ys)"
  by (induction xs ys rule: list_induct2') auto

lemma dom_map_of_rev_zip:
  "dom (map_of (rev (zip xs ys))) = set (take (length ys) xs)"
proof -
  have "dom (map_of (rev (zip xs ys))) = fst ` set (zip xs ys)"
    by (simp add: dom_map_of_conv_image_fst)
  also have "\<dots> = set (map fst (zip xs ys))" by simp
  also have "map fst (zip xs ys) = take (length ys) xs"
    by (induction xs ys rule: list_induct2') auto
  finally show ?thesis .
qed

lemma map_of_rev_zip_nth:
  assumes i: "i < length xs" "i < length ys"
    and last: "\<forall>j. i < j \<and> j < length xs \<and> j < length ys \<longrightarrow> xs ! j \<noteq> xs ! i"
  shows "map_of (rev (zip xs ys)) (xs ! i) = Some (ys ! i)"
  using i last
proof (induction xs arbitrary: ys i)
  case Nil
  then show ?case by simp
next
  case (Cons x xs)
  from Cons.prems(2) obtain y ys' where ys: "ys = y # ys'" by (cases ys) auto
  show ?case
  proof (cases i)
    case 0
    have "x \<notin> fst ` set (zip xs ys')"
    proof
      assume "x \<in> fst ` set (zip xs ys')"
      then obtain j where "j < length xs" "j < length ys'" "xs ! j = x"
        by (auto simp: set_zip)
      with Cons.prems(3) [rule_format, of "Suc j"] 0 ys show False by simp
    qed
    then have "map_of (rev (zip xs ys')) x = None"
      by (simp add: map_of_eq_None_iff)
    with 0 ys show ?thesis by (simp add: map_add_def)
  next
    case (Suc k)
    have k: "k < length xs" "k < length ys'" using Cons.prems(1,2) Suc ys by simp_all
    have "\<forall>j. k < j \<and> j < length xs \<and> j < length ys' \<longrightarrow> xs ! j \<noteq> xs ! k"
    proof (intro allI impI)
      fix j assume "k < j \<and> j < length xs \<and> j < length ys'"
      with Cons.prems(3) [rule_format, of "Suc j"] Suc ys show "xs ! j \<noteq> xs ! k" by simp
    qed
    from Cons.IH [OF k this] Suc ys show ?thesis by (simp add: map_add_def)
  qed
qed

section \<open>Lemmas: ranges, pixels and regions\<close>

lemma concat_py_range:
  "0 \<le> s \<Longrightarrow>
     concat (map (\<lambda>i. py_range (i * s) ((i + 1) * s)) (py_range 0 (int m)))
       = py_range 0 (int m * s)"
proof (induction m)
  case 0
  then show ?case by (simp add: py_range_def)
next
  case (Suc m)
  have r: "py_range 0 (int (Suc m)) = py_range 0 (int m) @ [int m]"
    by (simp add: py_range_def upto_rec2)
  have "py_range 0 (int (Suc m) * s) = py_range 0 (int m * s) @ py_range (int m * s) ((int m + 1) * s)"
  proof -
    have a: "0 \<le> int m * s" using Suc.prems by simp
    have b: "int m * s \<le> (int m + 1) * s" using Suc.prems by (simp add: algebra_simps)
    show ?thesis
    proof (cases "s = 0")
      case True
      then show ?thesis by (simp add: py_range_def)
    next
      case False
      with Suc.prems have "0 < s" by simp
      then have "int m * s \<le> (int m + 1) * s - 1" by (simp add: algebra_simps)
      from upto_split1 [of 0 "int m * s" "(int m + 1) * s - 1"] a this
      show ?thesis by (simp add: py_range_def algebra_simps)
    qed
  qed
  with Suc.IH [OF Suc.prems] r show ?case by simp
qed

lemma set_py_range [simp]: "set (py_range a b) = {a..<b}"
  by (auto simp: py_range_def)

lemma distinct_py_range [simp]: "distinct (py_range a b)"
  by (simp add: py_range_def)

lemma length_py_range [simp]: "length (py_range a b) = nat (b - a)"
  by (simp add: py_range_def)

lemma take_pixels_ok:
  assumes d: "is_arr3 K P n data" and pos: "0 < K" "0 < P"
    and inds: "\<forall>j\<in>set inds. 0 \<le> j \<and> j < int n"
  shows "take_pixels data inds = Inr (select_pixels data inds)"
proof -
  have n: "dim2 data = n" by (rule is_arr3_dim2 [OF d pos])
  have "list_all (\<lambda>j. - int n \<le> j \<and> j < int n) inds"
    using inds by (auto simp: list_all_iff)
  moreover have "map (\<lambda>j. row ! nat (if j < 0 then j + int n else j)) inds
                   = map (\<lambda>j. row ! nat j) inds" for row :: "real list"
    using inds by (intro map_cong) auto
  ultimately show ?thesis
    by (simp add: take_pixels_def n select_pixels_def Let_def)
qed

lemma take_pixels_dim2:
  assumes d: "is_arr3 K P n data" and pos: "0 < K" "0 < P"
    and t: "take_pixels data inds = Inr sel"
  shows "dim2 sel = length inds"
proof -
  from t have sel: "sel = map (map (\<lambda>row. map (\<lambda>j. row ! nat (if j < 0 then j + int (dim2 data)
                       else j)) inds)) data"
    by (auto simp: take_pixels_def Let_def split: if_splits)
  have "is_arr3 K P (length inds) sel"
    using d unfolding sel by (auto simp: is_arr3_def is_arr2_def list_all_iff)
  from is_arr3_dim2 [OF this pos] show ?thesis .
qed

lemma take_pixels_Inl: "take_pixels data inds = Inl e \<Longrightarrow> e = IndexError"
  by (auto simp: take_pixels_def Let_def split: if_splits)

lemma yield_regions_ok:
  assumes m: "is_arr3 K P n (data_mean self)" and v: "is_arr3 K' P' n (data_vars self)"
    and pos: "0 < K" "0 < P" "0 < K'" "0 < P'"
    and vec: "\<forall>i\<in>set ipixs. nest2ring hp (nside_base self)
                 (py_range (i * nside_sub) ((i + 1) * nside_sub))
               = Inr (region_inds ring nside_sub i)"
    and inds: "\<forall>i\<in>set ipixs. \<forall>j\<in>set (region_inds ring nside_sub i). 0 \<le> j \<and> j < int n"
  shows "yield_regions hp self nside_sub ipixs =
           (map (\<lambda>i. (select_pixels (data_mean self) (region_inds ring nside_sub i),
                       select_pixels (data_vars self) (region_inds ring nside_sub i)))
              ipixs, None)"
  using vec inds
proof (induction ipixs)
  case Nil
  then show ?case by simp
next
  case (Cons i ipixs)
  have i: "\<forall>j\<in>set (region_inds ring nside_sub i). 0 \<le> j \<and> j < int n"
    using Cons.prems(2) by simp
  have c: "nest2ring hp (nside_base self) (py_range (i * nside_sub) ((i + 1) * nside_sub))
             = Inr (region_inds ring nside_sub i)"
    using Cons.prems(1) by simp
  have "yield_regions hp self nside_sub ipixs =
           (map (\<lambda>i. (select_pixels (data_mean self) (region_inds ring nside_sub i),
                       select_pixels (data_vars self) (region_inds ring nside_sub i)))
              ipixs, None)"
    using Cons.IH Cons.prems by simp
  then show ?case
    by (simp add: c take_pixels_ok [OF m pos(1,2) i] take_pixels_ok [OF v pos(3,4) i])
qed

lemma yield_regions_groups:
  assumes m: "is_arr3 K P n (data_mean self)" and v: "is_arr3 K' P' n' (data_vars self)"
    and pos: "0 < K" "0 < P" "0 < K'" "0 < P'"
    and len: "\<forall>ps inds. nest2ring hp (nside_base self) ps = Inr inds
                \<longrightarrow> length inds = length ps"
  shows "(\<forall>g\<in>set (fst (yield_regions hp self nside_sub ipixs)).
            dim2 (fst g) = nat nside_sub \<and> dim2 (snd g) = nat nside_sub) \<and>
         (\<forall>e. snd (yield_regions hp self nside_sub ipixs) = Some e \<longrightarrow>
            e = IndexError \<or> (\<exists>ps. nest2ring hp (nside_base self) ps = Inl e))"
proof (induction ipixs)
  case Nil
  then show ?case by simp
next
  case (Cons i ipixs)
  let ?ps = "py_range (i * nside_sub) ((i + 1) * nside_sub)"
  have lps: "length ?ps = nat nside_sub" by (simp add: algebra_simps)
  show ?case
  proof (cases "nest2ring hp (nside_base self) ?ps")
    case (Inl e)
    then show ?thesis by auto
  next
    case (Inr inds)
    with len lps have li: "length inds = nat nside_sub" by simp
    show ?thesis
    proof (cases "take_pixels (data_mean self) inds")
      case (Inl e)
      with Inr take_pixels_Inl [OF Inl] show ?thesis by simp
    next
      case mean: (Inr mean)
      show ?thesis
      proof (cases "take_pixels (data_vars self) inds")
        case (Inl e)
        with Inr mean take_pixels_Inl [OF Inl] show ?thesis by simp
      next
        case vars: (Inr vars)
        have "dim2 mean = nat nside_sub" "dim2 vars = nat nside_sub"
          using take_pixels_dim2 [OF m pos(1,2) mean] take_pixels_dim2 [OF v pos(3,4) vars] li
          by simp_all
        with Cons.IH Inr mean vars show ?thesis
          by (auto split: prod.splits)
      qed
    qed
  qed
qed

lemma nside2npix_nonneg [simp]: "0 \<le> nside2npix n"
  by (simp add: nside2npix_def mult.assoc)

lemma nside2npix_eq_0 [simp]: "nside2npix n = 0 \<longleftrightarrow> n = 0"
  by (simp add: nside2npix_def)

lemma region_pixels_in_base:
  assumes spec: "0 < npix_spec" and base: "0 \<le> npix_base"
    and i: "0 \<le> i" "i < npix_spec"
    and p: "i * (npix_base div npix_spec) \<le> p" "p < (i + 1) * (npix_base div npix_spec)"
  shows "0 \<le> p \<and> p < (npix_base :: int)"
proof -
  let ?s = "npix_base div npix_spec"
  have s: "0 \<le> ?s" using spec base by (simp add: pos_imp_zdiv_nonneg_iff)
  have "0 \<le> i * ?s" using i(1) s by simp
  then have "0 \<le> p" using p(1) by simp
  have "i + 1 \<le> npix_spec" using i(2) by simp
  then have "(i + 1) * ?s \<le> npix_spec * ?s" using s by (rule mult_right_mono)
  also have "\<dots> \<le> npix_base"
  proof -
    have "npix_spec * ?s + npix_base mod npix_spec = npix_base" by simp
    moreover have "0 \<le> npix_base mod npix_spec" using spec by simp
    ultimately show ?thesis by linarith
  qed
  finally show ?thesis using p(2) \<open>0 \<le> p\<close> by simp
qed

lemma split_data_sweep:
  assumes dvd: "nside2npix (nside_spec self) dvd nside2npix (nside_base self)"
    and base: "nside_base self \<noteq> 0"
    and into: "\<forall>p\<in>{0..<nside2npix (nside_base self)}.
                 ring p \<in> {0..<nside2npix (nside_base self)}"
    and vec: "\<forall>ps. ps \<noteq> [] \<and> set ps \<subseteq> {0..<nside2npix (nside_base self)}
                \<longrightarrow> nest2ring hp (nside_base self) ps = Inr (map ring ps)"
    and m: "is_arr3 K P (nat (nside2npix (nside_base self))) (data_mean self)"
    and v: "is_arr3 K' P' (nat (nside2npix (nside_base self))) (data_vars self)"
    and pos: "0 < K" "0 < P" "0 < K'" "0 < P'"
  shows "split_data hp self IpixNone =
           (map (\<lambda>i. (select_pixels (data_mean self)
                         (region_inds ring
                            (nside2npix (nside_base self) div nside2npix (nside_spec self)) i),
                       select_pixels (data_vars self)
                         (region_inds ring
                            (nside2npix (nside_base self) div nside2npix (nside_spec self)) i)))
              (py_range 0 (nside2npix (nside_spec self))), None)"
proof -
  let ?spec = "nside2npix (nside_spec self)" and ?base = "nside2npix (nside_base self)"
  let ?s = "?base div ?spec"
  have bp: "0 < ?base" using base nside2npix_nonneg [of "nside_base self"]
    by (simp add: order_less_le)
  have spec0: "nside_spec self \<noteq> 0"
  proof
    assume "nside_spec self = 0"
    then have "?spec = 0" by simp
    with dvd have "?base = 0" by simp
    with base show False by simp
  qed
  then have sp: "0 < ?spec" using nside2npix_nonneg [of "nside_spec self"]
    by (simp add: order_less_le)
  have "?spec * ?s = ?base" using dvd by simp
  with bp sp have s: "0 < ?s" by (metis zero_less_mult_pos)
  have sub: "set (py_range (i * ?s) ((i + 1) * ?s)) \<subseteq> {0..<?base}"
    if "i \<in> set (py_range 0 ?spec)" for i
  proof
    fix p assume "p \<in> set (py_range (i * ?s) ((i + 1) * ?s))"
    then have p: "i * ?s \<le> p" "p < (i + 1) * ?s" by simp_all
    from that have "0 \<le> i" "i < ?spec" by simp_all
    from region_pixels_in_base [OF sp nside2npix_nonneg this p]
    show "p \<in> {0..<?base}" by simp
  qed
  have ne: "py_range (i * ?s) ((i + 1) * ?s) \<noteq> []" for i
  proof -
    have "i * ?s < (i + 1) * ?s" using s by (simp add: algebra_simps)
    then show ?thesis by (simp add: py_range_def)
  qed
  have v1: "\<forall>i\<in>set (py_range 0 ?spec).
              nest2ring hp (nside_base self) (py_range (i * ?s) ((i + 1) * ?s))
                = Inr (region_inds ring ?s i)"
    using vec sub ne by (simp add: region_inds_def)
  have v2: "\<forall>i\<in>set (py_range 0 ?spec). \<forall>j\<in>set (region_inds ring ?s i).
          0 \<le> j \<and> j < int (nat ?base)"
  proof (intro ballI)
    fix i j assume i: "i \<in> set (py_range 0 ?spec)" and j: "j \<in> set (region_inds ring ?s i)"
    from j obtain p where "p \<in> set (py_range (i * ?s) ((i + 1) * ?s))" and jp: "j = ring p"
      by (auto simp: region_inds_def)
    with sub [OF i] have "p \<in> {0..<?base}" by blast
    with into jp have "j \<in> {0..<?base}" by blast
    then show "0 \<le> j \<and> j < int (nat ?base)" by simp
  qed
  from yield_regions_ok [OF m v pos v1 v2] spec0 show ?thesis
    by (simp add: split_data_def Let_def)
qed

lemma length_region_inds: "length (region_inds ring nside_sub i) = nat nside_sub"
  by (simp add: region_inds_def algebra_simps)

lemma region_inds_partition:
  assumes dvd: "npix_spec dvd npix_base" and spec: "0 < npix_spec"
    and base: "0 \<le> npix_base"
    and bij: "bij_betw ring {0..<npix_base} {0..<npix_base}"
  shows "distinct (concat (map (region_inds ring (npix_base div npix_spec))
                     (py_range 0 npix_spec)))"
    and "set (concat (map (region_inds ring (npix_base div npix_spec))
                     (py_range 0 npix_spec))) = {0..<npix_base}"
proof -
  let ?s = "npix_base div npix_spec"
  define m where "m = nat npix_spec"
  have m: "npix_spec = int m" using spec by (simp add: m_def)
  have total: "int m * ?s = npix_base" using dvd m by simp
  have s: "0 \<le> ?s" using spec base by (simp add: pos_imp_zdiv_nonneg_iff)
  have c: "concat (map (region_inds ring ?s) (py_range 0 npix_spec))
             = map ring (py_range 0 npix_base)"
  proof -
    have "concat (map (region_inds ring ?s) (py_range 0 npix_spec))
            = map ring (concat (map (\<lambda>i. py_range (i * ?s) ((i + 1) * ?s))
                 (py_range 0 (int m))))"
    proof -
      have "region_inds ring ?s = (\<lambda>i. map ring (py_range (i * ?s) ((i + 1) * ?s)))"
        by (rule ext) (simp add: region_inds_def)
      then show ?thesis by (simp add: map_concat comp_def m)
    qed
    also have "\<dots> = map ring (py_range 0 (int m * ?s))"
      using concat_py_range [OF s, of m] by (simp add: m)
    finally show ?thesis by (simp add: total)
  qed
  have inj: "inj_on ring {0..<npix_base}" using bij by (rule bij_betw_imp_inj_on)
  show "distinct (concat (map (region_inds ring ?s) (py_range 0 npix_spec)))"
    unfolding c by (simp add: distinct_map inj)
  show "set (concat (map (region_inds ring ?s) (py_range 0 npix_spec))) = {0..<npix_base}"
    unfolding c using bij by (simp add: bij_betw_imp_surj_on)
qed

lemma nest2ring_nside2_bij:
  "bij_betw (\<lambda>p. nest2ring_nside2 ! nat p) {0..<48} {0..<48}"
proof -
  have s: "{0..<48 :: int} = set [0..47]" by auto
  have d: "distinct (map (\<lambda>p. nest2ring_nside2 ! nat p) [0..47])" by code_simp
  have i: "set (map (\<lambda>p. nest2ring_nside2 ! nat p) [0..47]) = set [0..47]" by code_simp
  from d have "inj_on (\<lambda>p. nest2ring_nside2 ! nat p) (set [0..47])"
    by (simp only: distinct_map)
  moreover from i have "(\<lambda>p. nest2ring_nside2 ! nat p) ` set [0..47] = set [0..47]"
    by (simp only: set_map)
  ultimately show ?thesis unfolding s by (simp only: bij_betw_def)
qed

section \<open>The amplitude mean solves the per-slice system (claim C1)\<close>



section \<open>A full sweep of split_data partitions the base pixels (claim C2)\<close>

text \<open>
  Claim C2. When the region pixel count divides the base pixel count, a full sweep of
  \<^verbatim>\<open>split_data\<close> yields one group per region, in ascending order of the regions, each the
  data at the ring indices of the region's nested pixels; the ring indices of all groups
  together are the base pixels, each exactly once; and when the two resolutions are equal
  every group has one pixel. (Assumed of healpy: on a non-empty sequence of base pixels
  \<^verbatim>\<open>nest2ring\<close> applies a bijection \<open>ring\<close> of the base pixels to every entry; and both
  maps have the base resolution.)
\<close>

theorem split_data_full_sweep_partition:
  assumes dvd: "nside2npix (nside_spec self) dvd nside2npix (nside_base self)"
    and base: "nside_base self \<noteq> 0"
    and bij: "bij_betw ring
                {0..<nside2npix (nside_base self)} {0..<nside2npix (nside_base self)}"
    and vec: "\<forall>ps. ps \<noteq> [] \<and> set ps \<subseteq> {0..<nside2npix (nside_base self)}
                \<longrightarrow> nest2ring hp (nside_base self) ps = Inr (map ring ps)"
    and m: "is_arr3 K P (nat (nside2npix (nside_base self))) (data_mean self)"
    and v: "is_arr3 K' P' (nat (nside2npix (nside_base self))) (data_vars self)"
    and pos: "0 < K" "0 < P" "0 < K'" "0 < P'"
  shows "split_data hp self IpixNone =
           (map (\<lambda>i. (select_pixels (data_mean self)
                         (region_inds ring
                            (nside2npix (nside_base self) div nside2npix (nside_spec self)) i),
                       select_pixels (data_vars self)
                         (region_inds ring
                            (nside2npix (nside_base self) div nside2npix (nside_spec self)) i)))
              [0..nside2npix (nside_spec self) - 1], None) \<and>
         distinct (concat (map (region_inds ring
                     (nside2npix (nside_base self) div nside2npix (nside_spec self)))
                   [0..nside2npix (nside_spec self) - 1])) \<and>
         set (concat (map (region_inds ring
                     (nside2npix (nside_base self) div nside2npix (nside_spec self)))
                   [0..nside2npix (nside_spec self) - 1]))
           = {0..<nside2npix (nside_base self)} \<and>
         (nside_spec self = nside_base self \<longrightarrow>
            (\<forall>i\<in>set [0..nside2npix (nside_spec self) - 1].
               length (region_inds ring
                 (nside2npix (nside_base self) div nside2npix (nside_spec self)) i) = 1))"
proof -
  let ?spec = "nside2npix (nside_spec self)" and ?base = "nside2npix (nside_base self)"
  have spec0: "nside_spec self \<noteq> 0"
  proof
    assume "nside_spec self = 0"
    then have "?spec = 0" by simp
    with dvd have "?base = 0" by simp
    with base show False by simp
  qed
  then have sp: "0 < ?spec" using nside2npix_nonneg [of "nside_spec self"]
    by (simp add: order_less_le)
  have into: "\<forall>p\<in>{0..<?base}. ring p \<in> {0..<?base}"
    using bij by (auto dest: bij_betwE)
  have r: "py_range 0 ?spec = [0..?spec - 1]" by (simp add: py_range_def)
  note sweep = split_data_sweep [OF dvd base into vec m v pos, unfolded r]
  note part = region_inds_partition [OF dvd sp nside2npix_nonneg bij, unfolded r]
  have one: "\<forall>i\<in>set [0..?spec - 1]. length (region_inds ring (?base div ?spec) i) = 1"
    if "nside_spec self = nside_base self"
    using that base by (simp add: length_region_inds)
  show ?thesis
  proof (intro conjI impI)
    show "split_data hp self IpixNone =
           (map (\<lambda>i. (select_pixels (data_mean self) (region_inds ring (?base div ?spec) i),
                       select_pixels (data_vars self) (region_inds ring (?base div ?spec) i)))
              [0..?spec - 1], None)"
      by (rule sweep)
    show "distinct (concat (map (region_inds ring (?base div ?spec)) [0..?spec - 1]))"
      by (rule part(1))
    show "set (concat (map (region_inds ring (?base div ?spec)) [0..?spec - 1]))
            = {0..<?base}"
      by (rule part(2))
    show "\<forall>i\<in>set [0..?spec - 1]. length (region_inds ring (?base div ?spec) i) = 1"
      if "nside_spec self = nside_base self"
      using that by (rule one)
  qed
qed

theorem split_data_full_sweep_partition_witness:
  "nside2npix (nside_spec (split_like 1 2 [[ramp 48]] [[ramp 48]]))
     dvd nside2npix (nside_base (split_like 1 2 [[ramp 48]] [[ramp 48]])) \<and>
   bij_betw (\<lambda>p. nest2ring_nside2 ! nat p) {0..<48} {0..<48} \<and>
   split_data example_healpy (split_like 1 2 [[ramp 48]] [[ramp 48]]) IpixNone =
     (map (\<lambda>i. (select_pixels [[ramp 48]] (region_inds (\<lambda>p. nest2ring_nside2 ! nat p) 4 i),
                 select_pixels [[ramp 48]] (region_inds (\<lambda>p. nest2ring_nside2 ! nat p) 4 i)))
        [0..11], None) \<and>
   map (region_inds (\<lambda>p. nest2ring_nside2 ! nat p) 4) [0..11] =
     [[13, 5, 4, 0], [15, 7, 6, 1], [17, 9, 8, 2], [19, 11, 10, 3],
      [28, 20, 27, 12], [30, 22, 21, 14], [32, 24, 23, 16], [34, 26, 25, 18],
      [44, 37, 36, 29], [45, 39, 38, 31], [46, 41, 40, 33], [47, 43, 42, 35]] \<and>
   distinct (concat (map (region_inds (\<lambda>p. nest2ring_nside2 ! nat p) 4) [0..11])) \<and>
   set (concat (map (region_inds (\<lambda>p. nest2ring_nside2 ! nat p) 4) [0..11])) = {0..<48} \<and>
   split_data example_healpy (split_like 1 1 [[ramp 12]] [[ramp 12]]) IpixNone =
     (map (\<lambda>i. (select_pixels [[ramp 12]] (region_inds (\<lambda>p. p) 1 i),
                 select_pixels [[ramp 12]] (region_inds (\<lambda>p. p) 1 i)))
        [0..11], None) \<and>
   list_all (\<lambda>i. length (region_inds (\<lambda>p. p) 1 i) = 1) [0..11]"
proof -
  let ?L = "split_like 1 2 [[ramp 48]] [[ramp 48]]"
  let ?ring = "\<lambda>p :: int. nest2ring_nside2 ! nat p"
  have f: "nside_spec ?L = 1" "nside_base ?L = 2" "data_mean ?L = [[ramp 48]]"
    "data_vars ?L = [[ramp 48]]"
    by (simp_all add: split_like_def)
  have n: "nside2npix 1 = 12" "nside2npix 2 = 48" by (simp_all add: nside2npix_def)
  have one: "(0 :: nat) < 1" by simp
  have h1: "nside2npix (nside_spec ?L) dvd nside2npix (nside_base ?L)"
    by (simp add: f n)
  have h2: "nside_base ?L \<noteq> 0" by (simp add: f)
  have h3: "bij_betw ?ring {0..<nside2npix (nside_base ?L)} {0..<nside2npix (nside_base ?L)}"
    using nest2ring_nside2_bij by (simp add: f n)
  have h3': "\<forall>ps. ps \<noteq> [] \<and> set ps \<subseteq> {0..<nside2npix (nside_base ?L)}
                \<longrightarrow> nest2ring example_healpy (nside_base ?L) ps = Inr (map ?ring ps)"
    by (simp add: f example_healpy_def)
  have a: "is_arr3 1 1 48 [[ramp 48]]" by code_simp
  have h4: "is_arr3 1 1 (nat (nside2npix (nside_base ?L))) (data_mean ?L)"
    and h5: "is_arr3 1 1 (nat (nside2npix (nside_base ?L))) (data_vars ?L)"
    using a by (simp_all add: f n)
  note inst = split_data_full_sweep_partition [OF h1 h2 h3 h3' h4 h5 one one one one]
  have q: "(48 :: int) div 12 = 4" "(12 :: int) - 1 = 11" by simp_all
  from inst have i1: "split_data example_healpy ?L IpixNone =
     (map (\<lambda>i. (select_pixels [[ramp 48]] (region_inds ?ring 4 i),
                 select_pixels [[ramp 48]] (region_inds ?ring 4 i)))
        [0..11], None)"
    and i2: "distinct (concat (map (region_inds ?ring 4) [0..11]))"
    and i3: "set (concat (map (region_inds ?ring 4) [0..11])) = {0..<48}"
    by (simp_all add: f n)
  have i4: "map (region_inds ?ring 4) [0..11] =
     [[13, 5, 4, 0], [15, 7, 6, 1], [17, 9, 8, 2], [19, 11, 10, 3],
      [28, 20, 27, 12], [30, 22, 21, 14], [32, 24, 23, 16], [34, 26, 25, 18],
      [44, 37, 36, 29], [45, 39, 38, 31], [46, 41, 40, 33], [47, 43, 42, 35]]"
    by code_simp
  let ?D = "split_like 1 1 [[ramp 12]] [[ramp 12]]"
  have g: "nside_spec ?D = 1" "nside_base ?D = 1" "data_mean ?D = [[ramp 12]]"
    "data_vars ?D = [[ramp 12]]"
    by (simp_all add: split_like_def)
  have d1: "nside2npix (nside_spec ?D) dvd nside2npix (nside_base ?D)"
    by (simp add: g)
  have d2: "nside_base ?D \<noteq> 0" by (simp add: g)
  have d3: "bij_betw (\<lambda>p :: int. p) {0..<nside2npix (nside_base ?D)}
              {0..<nside2npix (nside_base ?D)}"
    by (simp add: bij_betw_def)
  have d3': "\<forall>ps. ps \<noteq> [] \<and> set ps \<subseteq> {0..<nside2npix (nside_base ?D)}
                \<longrightarrow> nest2ring example_healpy (nside_base ?D) ps = Inr (map (\<lambda>p. p) ps)"
    by (simp add: g example_healpy_def)
  have b: "is_arr3 1 1 12 [[ramp 12]]" by code_simp
  have d4: "is_arr3 1 1 (nat (nside2npix (nside_base ?D))) (data_mean ?D)"
    and d5: "is_arr3 1 1 (nat (nside2npix (nside_base ?D))) (data_vars ?D)"
    using b by (simp_all add: g n)
  note deg = split_data_full_sweep_partition [OF d1 d2 d3 d3' d4 d5 one one one one]
  from deg have i5: "split_data example_healpy ?D IpixNone =
     (map (\<lambda>i. (select_pixels [[ramp 12]] (region_inds (\<lambda>p. p) 1 i),
                 select_pixels [[ramp 12]] (region_inds (\<lambda>p. p) 1 i)))
        [0..11], None)"
    by (simp add: g n)
  from deg have "nside_spec ?D = nside_base ?D \<longrightarrow>
      (\<forall>i\<in>set [0..nside2npix (nside_spec ?D) - 1].
         length (region_inds (\<lambda>p. p)
           (nside2npix (nside_base ?D) div nside2npix (nside_spec ?D)) i) = 1)"
    by blast
  then have "\<forall>i\<in>set [0..11]. length (region_inds (\<lambda>p. p) 1 i) = 1"
    by (simp add: g n)
  then have i6: "list_all (\<lambda>i. length (region_inds (\<lambda>p. p) 1 i) = 1) [0..11]"
    by (simp add: list_all_iff)
  from h1 nest2ring_nside2_bij i1 i4 i2 i3 i5 i6 show ?thesis by blast
qed

section \<open>chi2 is the weighted sum of squared residuals (claim C3)\<close>

text \<open>
  Claim C3 gives, for the data \<open>[2, 2, 4]\<close> of the scenario, the residual \<open>[0, 0, 2]\<close> and
  the value 4. The best-fit amplitude of these data is \<open>8/3\<close>, not 2, so the residual is
  \<open>[-2/3, -2/3, 4/3]\<close> and \<^verbatim>\<open>chi2\<close> returns \<open>8/3\<close>.
\<close>

theorem chi2_scenario_counterexample:
  "chi2 scenario_like [] scenario_d_mismatch scenario_n_ivar None = Inr (8 / 3) \<and>
   chi2 scenario_like [] scenario_d_mismatch scenario_n_ivar None \<noteq> Inr 4 \<and>
   get_amplitude_mean scenario_like scenario_d_mismatch scenario_n_ivar [] None None
     = Inr [[[8 / 3]]] \<and>
   map (\<lambda>k. residual [[[1, 1, 1]]] [[[8 / 3]]] scenario_d_mismatch k 0 0) [0, 1, 2]
     \<noteq> [0, 0, 2]"
proof -
  have c: "chi2 scenario_like [] scenario_d_mismatch scenario_n_ivar None = Inr (8 / 3)"
    by code_simp
  have a: "get_amplitude_mean scenario_like scenario_d_mismatch scenario_n_ivar [] None None
             = Inr [[[8 / 3]]]"
    by code_simp
  have r: "map (\<lambda>k. residual [[[1, 1, 1]]] [[[8 / 3]]] scenario_d_mismatch k 0 0) [0, 1, 2]
             = [- 2 / 3, - 2 / 3, 4 / 3]"
    by code_simp
  show ?thesis unfolding c a r by simp
qed

text \<open>
  Claim C3, amended. For spectral parameters whose mixing matrix \<open>F\<close> has shape
  \<open>(C, P, K)\<close> and data and inverse-noise-variance maps of shape \<open>(K, P, N)\<close>,
  \<^verbatim>\<open>chi2\<close> returns the sum over all frequencies, polarization channels and pixels of
  \<open>residual * n_ivar * residual\<close>, where the residual is the data minus the mixing matrix
  applied to the amplitude mean that \<^verbatim>\<open>get_amplitude_mean\<close> returns (and \<^verbatim>\<open>chi2\<close> fails as
  the amplitude mean fails). A mixing matrix handed in by the caller is used for the
  residual only. In the scenario with the data \<open>[2, 2, 4]\<close> the amplitude mean is \<open>8/3\<close>, the
  residual is \<open>[-2/3, -2/3, 4/3]\<close> and \<^verbatim>\<open>chi2\<close> is \<open>8/3\<close>.
\<close>

theorem chi2_weighted_residuals:
  assumes F: "is_arr3 C P K F" and Fres: "is_arr3 C P K Fres"
    and n: "is_arr3 K P N n_ivar_map" and d: "is_arr3 K P N d_map"
    and pos: "0 < C" "0 < P" "0 < K" "0 < N"
    and fm: "f_matrix self spec_params = Inr F"
    and arg: "f_matrix_arg = Some Fres \<or> (f_matrix_arg = None \<and> Fres = F)"
  shows "chi2 self spec_params d_map n_ivar_map f_matrix_arg =
           (case get_amplitude_mean self d_map n_ivar_map spec_params None None of
              Inl e \<Rightarrow> Inl e
            | Inr amp_mean \<Rightarrow>
                Inr (\<Sum>k\<leftarrow>[0..<K]. \<Sum>j\<leftarrow>[0..<P]. \<Sum>l\<leftarrow>[0..<N].
                       residual Fres amp_mean d_map k j l * n_ivar_map ! k ! j ! l
                         * residual Fres amp_mean d_map k j l)) \<and>
         get_amplitude_mean scenario_like scenario_d_mismatch scenario_n_ivar [] None None
           = Inr [[[8 / 3]]] \<and>
         map (\<lambda>k. residual [[[1, 1, 1]]] [[[8 / 3]]] scenario_d_mismatch k 0 0) [0, 1, 2]
           = [- 2 / 3, - 2 / 3, 4 / 3] \<and>
         chi2 scenario_like [] scenario_d_mismatch scenario_n_ivar None = Inr (8 / 3)"
proof -
  let ?cov = "map (\<lambda>i. map (\<lambda>l. information_matrix F n_ivar_map i l) [0..<N]) [0..<P]"
  let ?y = "map (\<lambda>i. map (\<lambda>l. weighted_data F n_ivar_map d_map i l) [0..<N]) [0..<P]"
  let ?mean = "get_amplitude_mean self d_map n_ivar_map spec_params None None"
  have lF: "length F = C" by (rule is_arr3_length [OF F])
  have a: "is_arr4 P N C C ?cov" by (rule information_matrix_arr4 [OF lF])
  have b: "is_arr3 P N C ?y" by (rule weighted_data_arr3 [OF lF])
  have mean: "?mean = linalg_solve ?cov ?y"
    using get_amplitude_mean_unfold [OF F n d pos(1-3), of None self spec_params] fm by simp
  have farg: "(case f_matrix_arg of None \<Rightarrow> f_matrix self spec_params | Some F \<Rightarrow> Inr F)
                = Inr Fres"
    using arg fm by auto
  have c: "chi2 self spec_params d_map n_ivar_map f_matrix_arg =
             bind_err ?mean (\<lambda>amp_mean.
             bind_err (bind_err (einsum_ijk_jli_kjl Fres amp_mean) (np_sub d_map)) (\<lambda>res.
               einsum_ijk_ijk_ijk res n_ivar_map res))"
    by (simp add: chi2_def farg Let_def bind_err_def split: sum.splits)
  have general: "chi2 self spec_params d_map n_ivar_map f_matrix_arg =
           (case ?mean of
              Inl e \<Rightarrow> Inl e
            | Inr amp_mean \<Rightarrow>
                Inr (\<Sum>k\<leftarrow>[0..<K]. \<Sum>j\<leftarrow>[0..<P]. \<Sum>l\<leftarrow>[0..<N].
                       residual Fres amp_mean d_map k j l * n_ivar_map ! k ! j ! l
                         * residual Fres amp_mean d_map k j l))"
  proof (cases ?mean)
    case (Inl e)
    then show ?thesis by (simp add: c)
  next
    case (Inr T)
    then have "linalg_solve ?cov ?y = Inr T" using mean by simp
    then have T: "is_arr3 P N C T" by (rule linalg_solve_sound(1) [OF a b pos(2,4)])
    show ?thesis
      by (simp add: c Inr residual_array [OF Fres T d pos(1-3)]
          einsum_weighted_squares [OF n pos(2,3)])
  qed
  have s1: "get_amplitude_mean scenario_like scenario_d_mismatch scenario_n_ivar [] None None
             = Inr [[[8 / 3]]]"
    by code_simp
  have s2: "map (\<lambda>k. residual [[[1, 1, 1]]] [[[8 / 3]]] scenario_d_mismatch k 0 0) [0, 1, 2]
             = [- 2 / 3, - 2 / 3, 4 / 3]"
    by code_simp
  have s3: "chi2 scenario_like [] scenario_d_mismatch scenario_n_ivar None = Inr (8 / 3)"
    by code_simp
  from general s1 s2 s3 show ?thesis by blast
qed

theorem chi2_weighted_residuals_witness:
  "is_arr3 1 1 3 [[[1, 1, 1 :: real]]] \<and> is_arr3 3 1 1 scenario_n_ivar \<and>
   is_arr3 3 1 1 scenario_d_mismatch \<and> f_matrix scenario_like [] = Inr [[[1, 1, 1]]] \<and>
   get_amplitude_mean scenario_like scenario_d_mismatch scenario_n_ivar [] None None
     = Inr [[[8 / 3]]] \<and>
   chi2 scenario_like [] scenario_d_mismatch scenario_n_ivar None =
     Inr (\<Sum>k\<leftarrow>[0..<3]. \<Sum>j\<leftarrow>[0..<1]. \<Sum>l\<leftarrow>[0..<1].
            residual [[[1, 1, 1]]] [[[8 / 3]]] scenario_d_mismatch k j l
              * scenario_n_ivar ! k ! j ! l
              * residual [[[1, 1, 1]]] [[[8 / 3]]] scenario_d_mismatch k j l) \<and>
   chi2 scenario_like [] scenario_d_mismatch scenario_n_ivar None = Inr (8 / 3)"
proof -
  have h1: "is_arr3 1 1 3 [[[1, 1, 1 :: real]]]" by code_simp
  have h2: "is_arr3 3 1 1 scenario_n_ivar" by code_simp
  have h3: "is_arr3 3 1 1 scenario_d_mismatch" by code_simp
  have h4: "f_matrix scenario_like [] = Inr [[[1, 1, 1]]]" by code_simp
  have h5: "None = Some [[[1, 1, 1 :: real]]] \<or>
            ((None :: arr3 option) = None \<and> [[[1, 1, 1 :: real]]] = [[[1, 1, 1]]])"
    by simp
  have t: "get_amplitude_mean scenario_like scenario_d_mismatch scenario_n_ivar [] None None
             = Inr [[[8 / 3]]]"
    by code_simp
  have pos: "(0::nat) < 1" "(0::nat) < 3" by simp_all
  note inst = chi2_weighted_residuals [OF h1 h1 h2 h3 pos(1) pos(1) pos(2) pos(1) h4 h5]
  from inst have g: "chi2 scenario_like [] scenario_d_mismatch scenario_n_ivar None =
      (case get_amplitude_mean scenario_like scenario_d_mismatch scenario_n_ivar [] None None
       of Inl e \<Rightarrow> Inl e
        | Inr amp_mean \<Rightarrow>
            Inr (\<Sum>k\<leftarrow>[0..<3]. \<Sum>j\<leftarrow>[0..<1]. \<Sum>l\<leftarrow>[0..<1].
                   residual [[[1, 1, 1]]] amp_mean scenario_d_mismatch k j l
                     * scenario_n_ivar ! k ! j ! l
                     * residual [[[1, 1, 1]]] amp_mean scenario_d_mismatch k j l))"
    by (rule conjunct1)
  have v: "chi2 scenario_like [] scenario_d_mismatch scenario_n_ivar None =
     Inr (\<Sum>k\<leftarrow>[0..<3]. \<Sum>j\<leftarrow>[0..<1]. \<Sum>l\<leftarrow>[0..<1].
            residual [[[1, 1, 1]]] [[[8 / 3]]] scenario_d_mismatch k j l
              * scenario_n_ivar ! k ! j ! l
              * residual [[[1, 1, 1]]] [[[8 / 3]]] scenario_d_mismatch k j l)"
    using g unfolding t by (simp only: sum.case)
  from inst have w: "chi2 scenario_like [] scenario_d_mismatch scenario_n_ivar None
                       = Inr (8 / 3)"
    by blast
  from h1 h2 h3 h4 t v w show ?thesis by blast
qed

section \<open>chi2perdof and pval read an unbound name (claims C4 and C5)\<close>

text \<open>
  Claim C4 says that \<^verbatim>\<open>chi2perdof\<close> returns \<^verbatim>\<open>chi2\<close> divided by the degrees of freedom.
  The function computes the degrees of freedom from \<^verbatim>\<open>amp_mean\<close>, which it never binds:
  whenever \<^verbatim>\<open>chi2\<close> returns, \<^verbatim>\<open>chi2perdof\<close> raises \<^verbatim>\<open>NameError\<close>, as in the scenario
  with the data \<open>[2, 2, 4]\<close>.
\<close>

theorem chi2perdof_raises_name_error:
  "chi2perdof self spec_params d_map n_ivar_map f_matrix_arg =
     (case chi2 self spec_params d_map n_ivar_map f_matrix_arg of
        Inl e \<Rightarrow> Inl e
      | Inr chi2_val \<Rightarrow> Inl (NameError ''amp_mean'')) \<and>
   chi2 scenario_like [] scenario_d_mismatch scenario_n_ivar None = Inr (8 / 3) \<and>
   chi2perdof scenario_like [] scenario_d_mismatch scenario_n_ivar None
     = Inl (NameError ''amp_mean'')"
proof -
  have g: "chi2perdof self spec_params d_map n_ivar_map f_matrix_arg =
     (case chi2 self spec_params d_map n_ivar_map f_matrix_arg of
        Inl e \<Rightarrow> Inl e
      | Inr chi2_val \<Rightarrow> Inl (NameError ''amp_mean''))"
    for self spec_params d_map n_ivar_map f_matrix_arg
    by (simp add: chi2perdof_def lookup_amp_mean bind_err_def)
  have c: "chi2 scenario_like [] scenario_d_mismatch scenario_n_ivar None = Inr (8 / 3)"
    by code_simp
  show ?thesis using g c by simp
qed

text \<open>
  Claim C5 says that \<^verbatim>\<open>pval\<close> returns one minus the chi-squared distribution function at
  \<^verbatim>\<open>chi2\<close>. Like \<^verbatim>\<open>chi2perdof\<close> it reads the unbound \<^verbatim>\<open>amp_mean\<close>: whenever \<^verbatim>\<open>chi2\<close>
  returns, \<^verbatim>\<open>pval\<close> raises \<^verbatim>\<open>NameError\<close>, as in the scenario with the data \<open>[2, 2, 2]\<close>,
  where \<^verbatim>\<open>chi2\<close> is 0.
\<close>

theorem pval_raises_name_error:
  "pval cdf self spec_params d_map n_ivar_map f_matrix_arg =
     (case chi2 self spec_params d_map n_ivar_map f_matrix_arg of
        Inl e \<Rightarrow> Inl e
      | Inr chi2_val \<Rightarrow> Inl (NameError ''amp_mean'')) \<and>
   chi2 scenario_like [] scenario_d scenario_n_ivar None = Inr 0 \<and>
   pval cdf scenario_like [] scenario_d scenario_n_ivar None = Inl (NameError ''amp_mean'')"
proof -
  have g: "pval cdf self spec_params d_map n_ivar_map f_matrix_arg =
     (case chi2 self spec_params d_map n_ivar_map f_matrix_arg of
        Inl e \<Rightarrow> Inl e
      | Inr chi2_val \<Rightarrow> Inl (NameError ''amp_mean''))"
    for self spec_params d_map n_ivar_map f_matrix_arg
    by (simp add: pval_def lookup_amp_mean bind_err_def)
  have c: "chi2 scenario_like [] scenario_d scenario_n_ivar None = Inr 0"
    by code_simp
  show ?thesis using g c by simp
qed

section \<open>Construction checks the parameters first (claim C6)\<close>

text \<open>
  Claim C6. When a name is both fixed and variable, or the fixed and the variable names
  together are not exactly the names the sky model requires, construction fails with the
  configuration error (the source prints the message and exits) and no file has been read;
  when the two sets are disjoint and their union is the required set, the check passes and
  construction goes on to read the data, so that it succeeds when reading does.
\<close>

theorem check_parameters_gate:
  "(set (map fst (fixed_pars config)) \<inter> set (var_pars config) \<noteq> {} \<or>
    set (map fst (fixed_pars config)) \<union> set (var_pars config)
      \<noteq> set (get_param_names skymodel)
    \<longrightarrow> (\<exists>msg. check_parameters (attach_config config skymodel) = Inl (ConfigError msg) \<and>
               MapLike_init hp config skymodel = ([], Inl (ConfigError msg)))) \<and>
   (set (map fst (fixed_pars config)) \<inter> set (var_pars config) = {} \<and>
    set (map fst (fixed_pars config)) \<union> set (var_pars config)
      = set (get_param_names skymodel)
    \<longrightarrow> check_parameters (attach_config config skymodel) = Inr () \<and>
        MapLike_init hp config skymodel = read_data hp (attach_config config skymodel))"
  by (auto simp: MapLike_init_def check_parameters_def attach_config_def Let_def)

theorem check_parameters_gate_witness:
  "set (map fst (fixed_pars (example_config [(''nu_ref_s'', 23), (''beta_s'', - 3)]
          [''beta_s'', ''beta_d'', ''T_d''])))
     \<inter> set (var_pars (example_config [(''nu_ref_s'', 23), (''beta_s'', - 3)]
          [''beta_s'', ''beta_d'', ''T_d''])) \<noteq> {} \<and>
   MapLike_init example_healpy
       (example_config [(''nu_ref_s'', 23), (''beta_s'', - 3)] [''beta_s'', ''beta_d'', ''T_d''])
       example_sky
     = ([], Inl (ConfigError ''Check parameter not in both fixed and variable parameters.'')) \<and>
   set (map fst (fixed_pars (example_config [(''nu_ref_s'', 23)]
          [''beta_s'', ''beta_d'', ''T_d''])))
     \<union> set (var_pars (example_config [(''nu_ref_s'', 23)] [''beta_s'', ''beta_d'', ''T_d'']))
     \<noteq> set (get_param_names example_sky) \<and>
   MapLike_init example_healpy
       (example_config [(''nu_ref_s'', 23)] [''beta_s'', ''beta_d'', ''T_d'']) example_sky
     = ([], Inl (ConfigError ''Parameter mismatch between model and MapLike configuration'')) \<and>
   set (map fst (fixed_pars (example_config [(''nu_ref_s'', 23), (''nu_ref_d'', 353)]
          [''beta_s'', ''beta_d'', ''T_d''])))
     \<inter> set (var_pars (example_config [(''nu_ref_s'', 23), (''nu_ref_d'', 353)]
          [''beta_s'', ''beta_d'', ''T_d''])) = {} \<and>
   set (map fst (fixed_pars (example_config [(''nu_ref_s'', 23), (''nu_ref_d'', 353)]
          [''beta_s'', ''beta_d'', ''T_d''])))
     \<union> set (var_pars (example_config [(''nu_ref_s'', 23), (''nu_ref_d'', 353)]
          [''beta_s'', ''beta_d'', ''T_d''])) = set (get_param_names example_sky) \<and>
   MapLike_init example_healpy
       (example_config [(''nu_ref_s'', 23), (''nu_ref_d'', 353)] [''beta_s'', ''beta_d'', ''T_d''])
       example_sky
     = read_data example_healpy (attach_config
         (example_config [(''nu_ref_s'', 23), (''nu_ref_d'', 353)]
            [''beta_s'', ''beta_d'', ''T_d'']) example_sky) \<and>
   fst (MapLike_init example_healpy
       (example_config [(''nu_ref_s'', 23), (''nu_ref_d'', 353)] [''beta_s'', ''beta_d'', ''T_d''])
       example_sky)
     = [''mean_nu010.fits'', ''mean_nu020.fits'', ''vars_nu010.fits'', ''vars_nu020.fits''] \<and>
   isl (snd (MapLike_init example_healpy
       (example_config [(''nu_ref_s'', 23), (''nu_ref_d'', 353)] [''beta_s'', ''beta_d'', ''T_d''])
       example_sky)) = False"
proof -
  let ?both = "example_config [(''nu_ref_s'', 23), (''beta_s'', - 3)]
                 [''beta_s'', ''beta_d'', ''T_d'']"
  let ?missing = "example_config [(''nu_ref_s'', 23)] [''beta_s'', ''beta_d'', ''T_d'']"
  let ?good = "example_config [(''nu_ref_s'', 23), (''nu_ref_d'', 353)]
                 [''beta_s'', ''beta_d'', ''T_d'']"
  have b: "set (map fst (fixed_pars ?both)) \<inter> set (var_pars ?both) \<noteq> {}"
    by (simp add: example_config_def)
  have m: "set (map fst (fixed_pars ?missing)) \<union> set (var_pars ?missing)
             \<noteq> set (get_param_names example_sky)"
  proof -
    have "''nu_ref_d'' \<in> set (get_param_names example_sky)"
      by (simp add: example_sky_def)
    moreover have "''nu_ref_d'' \<notin> set (map fst (fixed_pars ?missing))
                     \<union> set (var_pars ?missing)"
      by (simp add: example_config_def)
    ultimately show ?thesis by metis
  qed
  have g1: "set (map fst (fixed_pars ?good)) \<inter> set (var_pars ?good) = {}"
    by (simp add: example_config_def)
  have g2: "set (map fst (fixed_pars ?good)) \<union> set (var_pars ?good)
              = set (get_param_names example_sky)"
    by (auto simp: example_config_def example_sky_def)
  note gate = check_parameters_gate [of _ example_sky example_healpy]
  from gate [of ?both] b obtain msg where
    "check_parameters (attach_config ?both example_sky) = Inl (ConfigError msg)"
    "MapLike_init example_healpy ?both example_sky = ([], Inl (ConfigError msg))"
    by blast
  moreover have "check_parameters (attach_config ?both example_sky)
      = Inl (ConfigError ''Check parameter not in both fixed and variable parameters.'')"
    by code_simp
  ultimately have r1: "MapLike_init example_healpy ?both example_sky
      = ([], Inl (ConfigError ''Check parameter not in both fixed and variable parameters.''))"
    by simp
  from gate [of ?missing] m obtain msg' where
    "check_parameters (attach_config ?missing example_sky) = Inl (ConfigError msg')"
    "MapLike_init example_healpy ?missing example_sky = ([], Inl (ConfigError msg'))"
    by blast
  moreover have "check_parameters (attach_config ?missing example_sky)
      = Inl (ConfigError ''Parameter mismatch between model and MapLike configuration'')"
    by code_simp
  ultimately have r2: "MapLike_init example_healpy ?missing example_sky
      = ([], Inl (ConfigError ''Parameter mismatch between model and MapLike configuration''))"
    by simp
  from gate [of ?good] g1 g2 have r3: "MapLike_init example_healpy ?good example_sky
      = read_data example_healpy (attach_config ?good example_sky)"
    by blast
  have r4: "fst (read_data example_healpy (attach_config ?good example_sky))
      = [''mean_nu010.fits'', ''mean_nu020.fits'', ''vars_nu010.fits'', ''vars_nu020.fits'']"
    by code_simp
  have r5: "isl (snd (read_data example_healpy (attach_config ?good example_sky))) = False"
    by code_simp
  from b r1 m r2 g1 g2 r3 r4 r5 show ?thesis by simp
qed

section \<open>The marginal likelihood is the summed quadratic form (claim C7)\<close>

text \<open>
  Claim C7. For spectral parameters whose mixing matrix has shape \<open>(C, P, K)\<close> and region
  data of shape \<open>(K, P, N)\<close>, \<^verbatim>\<open>marginal_spectral_likelihood\<close> returns the quadratic form
  \<open>amp_mean\<^sup>T . cov . amp_mean\<close> summed over all polarization channels and pixels of the
  region, where \<open>cov\<close> and \<open>amp_mean\<close> are what \<^verbatim>\<open>get_amplitude_covariance\<close> and
  \<^verbatim>\<open>get_amplitude_mean\<close> return for the same parameters and data; where the amplitude
  mean fails, the likelihood fails with the same error.
\<close>

theorem marginal_spectral_likelihood_quadratic_form:
  assumes F: "is_arr3 C P K F" and n: "is_arr3 K P N n_ivar_map"
    and d: "is_arr3 K P N d_map" and pos: "0 < C" "0 < P" "0 < K" "0 < N"
    and fm: "f_matrix self spec_params = Inr F"
  shows "\<exists>cov. get_amplitude_covariance self n_ivar_map spec_params None = Inr cov \<and>
           marginal_spectral_likelihood self spec_params d_map n_ivar_map =
             (case get_amplitude_mean self d_map n_ivar_map spec_params None None of
                Inl e \<Rightarrow> Inl e
              | Inr amp_mean \<Rightarrow>
                  Inr (\<Sum>i\<leftarrow>[0..<P]. \<Sum>l\<leftarrow>[0..<N].
                         quad_form (amp_mean ! i ! l) (cov ! i ! l)))"
proof -
  let ?cov = "map (\<lambda>i. map (\<lambda>l. information_matrix F n_ivar_map i l) [0..<N]) [0..<P]"
  let ?y = "map (\<lambda>i. map (\<lambda>l. weighted_data F n_ivar_map d_map i l) [0..<N]) [0..<P]"
  let ?mean = "get_amplitude_mean self d_map n_ivar_map spec_params None None"
  have lF: "length F = C" by (rule is_arr3_length [OF F])
  have a: "is_arr4 P N C C ?cov" by (rule information_matrix_arr4 [OF lF])
  have b: "is_arr3 P N C ?y" by (rule weighted_data_arr3 [OF lF])
  have covF: "get_amplitude_covariance self n_ivar_map spec_params (Some F) = Inr ?cov"
    by (rule get_amplitude_covariance_eq [OF F n pos(1-3)])
  have cov: "get_amplitude_covariance self n_ivar_map spec_params None = Inr ?cov"
    using get_amplitude_covariance_arg [of None F self spec_params n_ivar_map] fm covF
    by simp
  have mean: "?mean = linalg_solve ?cov ?y"
    using get_amplitude_mean_unfold [OF F n d pos(1-3), of None self spec_params] fm by simp
  have given: "get_amplitude_mean self d_map n_ivar_map spec_params (Some F) (Some ?cov)
                 = ?mean"
    by (rule get_amplitude_mean_given [OF F n d pos(1-3) fm covF])
  have m: "marginal_spectral_likelihood self spec_params d_map n_ivar_map =
             bind_err ?mean (\<lambda>amp_mean. einsum_ijk_ijkl_ijl amp_mean ?cov amp_mean)"
    by (simp add: marginal_spectral_likelihood_def fm covF given)
  have "marginal_spectral_likelihood self spec_params d_map n_ivar_map =
          (case ?mean of
             Inl e \<Rightarrow> Inl e
           | Inr amp_mean \<Rightarrow>
               Inr (\<Sum>i\<leftarrow>[0..<P]. \<Sum>l\<leftarrow>[0..<N].
                      quad_form (amp_mean ! i ! l) (?cov ! i ! l)))"
  proof (cases ?mean)
    case (Inl e)
    then show ?thesis by (simp add: m)
  next
    case (Inr T)
    then have "linalg_solve ?cov ?y = Inr T" using mean by simp
    then have "is_arr3 P N C T" by (rule linalg_solve_sound(1) [OF a b pos(2,4)])
    from einsum_quad [OF this a pos(2,4)] Inr show ?thesis by (simp add: m)
  qed
  with cov show ?thesis by blast
qed

theorem marginal_spectral_likelihood_quadratic_form_witness:
  "is_arr3 1 1 3 [[[1, 1, 1 :: real]]] \<and> is_arr3 3 1 1 scenario_n_ivar \<and>
   is_arr3 3 1 1 scenario_d \<and> f_matrix scenario_like [] = Inr [[[1, 1, 1]]] \<and>
   get_amplitude_covariance scenario_like scenario_n_ivar [] None = Inr [[[[3]]]] \<and>
   get_amplitude_mean scenario_like scenario_d scenario_n_ivar [] None None = Inr [[[2]]] \<and>
   marginal_spectral_likelihood scenario_like [] scenario_d scenario_n_ivar
     = Inr (quad_form [2] [[3]]) \<and>
   quad_form [2] [[3]] = 12"
proof -
  have h1: "is_arr3 1 1 3 [[[1, 1, 1 :: real]]]" by code_simp
  have h2: "is_arr3 3 1 1 scenario_n_ivar" by code_simp
  have h3: "is_arr3 3 1 1 scenario_d" by code_simp
  have h4: "f_matrix scenario_like [] = Inr [[[1, 1, 1]]]" by code_simp
  have c: "get_amplitude_covariance scenario_like scenario_n_ivar [] None = Inr [[[[3]]]]"
    by code_simp
  have t: "get_amplitude_mean scenario_like scenario_d scenario_n_ivar [] None None
             = Inr [[[2]]]"
    by code_simp
  have q: "quad_form [2] [[3]] = 12" by code_simp
  from marginal_spectral_likelihood_quadratic_form [OF h1 h2 h3 _ _ _ _ h4]
  have "marginal_spectral_likelihood scenario_like [] scenario_d scenario_n_ivar
          = Inr (quad_form [2] [[3]])"
    by (simp add: c t)
  with h1 h2 h3 h4 c t q show ?thesis by simp
qed

section \<open>split_data has no divisibility check (claim C8)\<close>

text \<open>
  Claim C8 says that \<^verbatim>\<open>split_data\<close> fails when the base pixel count is not a multiple of
  the region pixel count. With 12 base pixels, 48 regions and the selection of no region
  it ends without any error.
\<close>

theorem split_data_indivisible_counterexample:
  "\<not> nside2npix (nside_spec (split_like 2 1 [[ramp 12]] [[ramp 12]]))
       dvd nside2npix (nside_base (split_like 2 1 [[ramp 12]] [[ramp 12]])) \<and>
   split_data example_healpy (split_like 2 1 [[ramp 12]] [[ramp 12]]) (IpixList [])
     = ([], None)"
proof -
  have "\<not> (48 :: int) dvd 12" by simp
  then have a: "\<not> nside2npix (nside_spec (split_like 2 1 [[ramp 12]] [[ramp 12]]))
       dvd nside2npix (nside_base (split_like 2 1 [[ramp 12]] [[ramp 12]]))"
    by (simp add: split_like_def nside2npix_def)
  have b: "split_data example_healpy (split_like 2 1 [[ramp 12]] [[ramp 12]]) (IpixList [])
     = ([], None)"
    by code_simp
  from a b show ?thesis by blast
qed

text \<open>
  Claim C8, amended. When the base pixel count is not a multiple of the region pixel
  count, \<^verbatim>\<open>split_data\<close> makes no check of it and raises no configuration error: it cuts
  the quotient of the two counts to an integer, every group it yields holds that many
  pixels, the selection of no region ends without error, and the only errors that end the
  iteration are the division by zero (region resolution 0), the unbound-local error, an
  index error of the data selection and what \<^verbatim>\<open>nest2ring\<close> raises. (Assumed of healpy:
  \<^verbatim>\<open>nest2ring\<close> returns one number per pixel given.)
\<close>

theorem split_data_no_divisibility_check:
  assumes ndvd: "\<not> nside2npix (nside_spec self) dvd nside2npix (nside_base self)"
    and m: "is_arr3 K P n (data_mean self)" and v: "is_arr3 K' P' n' (data_vars self)"
    and pos: "0 < K" "0 < P" "0 < K'" "0 < P'"
    and len: "\<forall>ps inds. nest2ring hp (nside_base self) ps = Inr inds
                \<longrightarrow> length inds = length ps"
  shows "(\<forall>g\<in>set (fst (split_data hp self ipix)).
            dim2 (fst g)
              = nat (nside2npix (nside_base self) div nside2npix (nside_spec self)) \<and>
            dim2 (snd g)
              = nat (nside2npix (nside_base self) div nside2npix (nside_spec self))) \<and>
         (\<forall>e. snd (split_data hp self ipix) = Some e \<longrightarrow>
            e = ZeroDivisionError \<or> e = UnboundLocalError ''ipixs'' \<or> e = IndexError \<or>
            (\<exists>ps. nest2ring hp (nside_base self) ps = Inl e)) \<and>
         (nside_spec self \<noteq> 0 \<longrightarrow> split_data hp self (IpixList []) = ([], None))"
proof -
  let ?s = "nside2npix (nside_base self) div nside2npix (nside_spec self)"
  note g = yield_regions_groups [OF m v pos len, of ?s]
  have empty: "nside_spec self \<noteq> 0 \<longrightarrow> split_data hp self (IpixList []) = ([], None)"
    by (simp add: split_data_def Let_def)
  have main: "(\<forall>g\<in>set (fst (split_data hp self ipix)).
            dim2 (fst g) = nat ?s \<and> dim2 (snd g) = nat ?s) \<and>
         (\<forall>e. snd (split_data hp self ipix) = Some e \<longrightarrow>
            e = ZeroDivisionError \<or> e = UnboundLocalError ''ipixs'' \<or> e = IndexError \<or>
            (\<exists>ps. nest2ring hp (nside_base self) ps = Inl e))"
  proof (cases "nside_spec self = 0")
    case True
    then show ?thesis by (simp add: split_data_def)
  next
    case False
    have y: "split_data hp self ipix = yield_regions hp self ?s ipixs \<Longrightarrow> ?thesis" for ipixs
      using g [of ipixs] by auto
    show ?thesis
    proof (cases ipix)
      case IpixNone
      with False show ?thesis by (intro y) (simp add: split_data_def Let_def)
    next
      case (IpixInt i)
      with False show ?thesis
        by (intro y) (simp add: split_data_def Let_def del: yield_regions.simps)
    next
      case (IpixList l)
      with False show ?thesis
        by (intro y) (simp add: split_data_def Let_def del: yield_regions.simps)
    next
      case IpixOther
      with False show ?thesis by (simp add: split_data_def Let_def)
    qed
  qed
  from main empty show ?thesis by blast
qed

theorem split_data_no_divisibility_check_witness:
  "\<not> nside2npix (nside_spec (split_like 2 1 [[ramp 12]] [[ramp 12]]))
       dvd nside2npix (nside_base (split_like 2 1 [[ramp 12]] [[ramp 12]])) \<and>
   nside2npix (nside_base (split_like 2 1 [[ramp 12]] [[ramp 12]]))
     div nside2npix (nside_spec (split_like 2 1 [[ramp 12]] [[ramp 12]])) = 0 \<and>
   split_data example_healpy (split_like 2 1 [[ramp 12]] [[ramp 12]]) IpixNone
     = (replicate 48 ([[[]]], [[[]]]), None) \<and>
   list_all (\<lambda>g. dim2 (fst g) = 0 \<and> dim2 (snd g) = 0)
     (fst (split_data example_healpy (split_like 2 1 [[ramp 12]] [[ramp 12]]) IpixNone)) \<and>
   split_data example_healpy (split_like 2 1 [[ramp 12]] [[ramp 12]]) (IpixList [])
     = ([], None)"
proof -
  let ?L = "split_like 2 1 [[ramp 12]] [[ramp 12]]"
  have f: "nside_spec ?L = 2" "nside_base ?L = 1" "data_mean ?L = [[ramp 12]]"
    "data_vars ?L = [[ramp 12]]"
    by (simp_all add: split_like_def)
  have n: "nside2npix 1 = 12" "nside2npix 2 = 48" by (simp_all add: nside2npix_def)
  have one: "(0 :: nat) < 1" by simp
  have h1: "\<not> nside2npix (nside_spec ?L) dvd nside2npix (nside_base ?L)"
    by (simp add: f n)
  have a: "is_arr3 1 1 12 [[ramp 12]]" by code_simp
  have h2: "is_arr3 1 1 12 (data_mean ?L)" and h3: "is_arr3 1 1 12 (data_vars ?L)"
    using a by (simp_all add: f)
  have h4: "\<forall>ps inds. nest2ring example_healpy (nside_base ?L) ps = Inr inds
                \<longrightarrow> length inds = length ps"
    by (auto simp: example_healpy_def)
  have z: "nside2npix (nside_base ?L) div nside2npix (nside_spec ?L) = 0"
    by (simp add: f n)
  note inst = split_data_no_divisibility_check [OF h1 h2 h3 one one one one h4]
  from inst [of IpixNone]
  have "\<forall>g\<in>set (fst (split_data example_healpy ?L IpixNone)).
          dim2 (fst g) = nat (nside2npix (nside_base ?L) div nside2npix (nside_spec ?L)) \<and>
          dim2 (snd g) = nat (nside2npix (nside_base ?L) div nside2npix (nside_spec ?L))"
    by blast
  then have w1: "list_all (\<lambda>g. dim2 (fst g) = 0 \<and> dim2 (snd g) = 0)
      (fst (split_data example_healpy ?L IpixNone))"
    unfolding z by (simp add: list_all_iff)
  from inst [of IpixNone]
  have "nside_spec ?L \<noteq> 0 \<longrightarrow> split_data example_healpy ?L (IpixList []) = ([], None)"
    by blast
  then have w2: "split_data example_healpy ?L (IpixList []) = ([], None)"
    by (simp add: f)
  have w3: "split_data example_healpy ?L IpixNone = (replicate 48 ([[[]]], [[[]]]), None)"
    by code_simp
  from h1 z w3 w1 w2 show ?thesis by blast
qed

section \<open>f_matrix pairs names and values up to the shorter list (claim C9)\<close>

text \<open>
  Claim C9. \<^verbatim>\<open>f_matrix\<close> raises nothing of its own, whatever the length of the value list:
  its result is the sky model's answer to the dictionary that pairs the first
  \<open>min (len names) (len values)\<close> names with the values at their positions, overridden by the
  fixed parameters. Values beyond the names change nothing, and a variable name beyond the
  values is a key only if it is fixed or repeats an earlier name.
\<close>

theorem f_matrix_pairing_truncates:
  "f_matrix self var_pars_list
     = fnu (sky self) (nus self)
         (map_of (rev (zip (take (length var_pars_list) (var_pars self))
                           (take (length (var_pars self)) var_pars_list)))
          ++ map_of (fixed_pars self)) \<and>
   f_matrix self var_pars_list
     = f_matrix self (take (length (var_pars self)) var_pars_list) \<and>
   dom (spec_params_dict self var_pars_list)
     = set (take (length var_pars_list) (var_pars self)) \<union> set (map fst (fixed_pars self)) \<and>
   (\<forall>i. i < length (var_pars self) \<and> i < length var_pars_list \<and>
        var_pars self ! i \<notin> set (map fst (fixed_pars self)) \<and>
        (\<forall>j. i < j \<and> j < length (var_pars self) \<and> j < length var_pars_list
               \<longrightarrow> var_pars self ! j \<noteq> var_pars self ! i)
      \<longrightarrow> spec_params_dict self var_pars_list (var_pars self ! i) = Some (var_pars_list ! i))"
proof -
  have z: "zip (var_pars self) var_pars_list
             = zip (take (length var_pars_list) (var_pars self))
                   (take (length (var_pars self)) var_pars_list)"
    by (rule zip_take_both)
  have z': "zip (var_pars self) var_pars_list
              = zip (var_pars self) (take (length (var_pars self)) var_pars_list)"
    by (rule zip_take_longer)
  have d: "dom (spec_params_dict self var_pars_list)
     = set (take (length var_pars_list) (var_pars self)) \<union> set (map fst (fixed_pars self))"
    unfolding spec_params_dict_def dom_map_add dom_map_of_rev_zip
    by (auto simp: dom_map_of_conv_image_fst)
  have v: "spec_params_dict self var_pars_list (var_pars self ! i) = Some (var_pars_list ! i)"
    if "i < length (var_pars self)" "i < length var_pars_list"
      "var_pars self ! i \<notin> set (map fst (fixed_pars self))"
      "\<forall>j. i < j \<and> j < length (var_pars self) \<and> j < length var_pars_list
               \<longrightarrow> var_pars self ! j \<noteq> var_pars self ! i" for i
  proof -
    have "map_of (fixed_pars self) (var_pars self ! i) = None"
      using that(3) by (simp add: map_of_eq_None_iff)
    then show ?thesis
      using map_of_rev_zip_nth [OF that(1,2,4)]
      by (simp add: spec_params_dict_def map_add_def)
  qed
  have f1: "f_matrix self var_pars_list
     = fnu (sky self) (nus self)
         (map_of (rev (zip (take (length var_pars_list) (var_pars self))
                           (take (length (var_pars self)) var_pars_list)))
          ++ map_of (fixed_pars self))"
    unfolding f_matrix_def spec_params_dict_def by (subst z) (rule refl)
  have f2: "f_matrix self var_pars_list
     = f_matrix self (take (length (var_pars self)) var_pars_list)"
    unfolding f_matrix_def spec_params_dict_def by (subst z') (rule refl)
  from f1 f2 d v show ?thesis by blast
qed

theorem f_matrix_pairing_truncates_witness:
  "f_matrix example_like [- 3, 8 / 5, 20, 99] = f_matrix example_like [- 3, 8 / 5, 20] \<and>
   spec_params_dict example_like [- 3, 8 / 5, 20, 99] ''T_d'' = Some 20 \<and>
   dom (spec_params_dict example_like [- 3]) = {''beta_s'', ''nu_ref_s'', ''nu_ref_d''} \<and>
   spec_params_dict example_like [- 3] ''beta_d'' = None \<and>
   f_matrix example_like [- 3]
     = fnu example_sky [10, 20]
         (map_of [(''beta_s'', - 3)] ++ map_of [(''nu_ref_s'', 23), (''nu_ref_d'', 353)])"
proof -
  have vp: "var_pars example_like = [''beta_s'', ''beta_d'', ''T_d'']"
    and fp: "fixed_pars example_like = [(''nu_ref_s'', 23), (''nu_ref_d'', 353)]"
    and sk: "sky example_like = example_sky" and nu: "nus example_like = [10, 20]"
    by (simp_all add: example_like_def attach_config_def example_config_def)
  note long = f_matrix_pairing_truncates [of example_like "[- 3, 8 / 5, 20, 99]"]
  note short = f_matrix_pairing_truncates [of example_like "[- 3]"]
  from long have "f_matrix example_like [- 3, 8 / 5, 20, 99]
      = f_matrix example_like (take (length (var_pars example_like)) [- 3, 8 / 5, 20, 99])"
    by blast
  then have a: "f_matrix example_like [- 3, 8 / 5, 20, 99]
                  = f_matrix example_like [- 3, 8 / 5, 20]"
    by (simp add: vp)
  from long have "2 < length (var_pars example_like) \<and> 2 < length [- 3, 8 / 5, 20, 99 :: real] \<and>
        var_pars example_like ! 2 \<notin> set (map fst (fixed_pars example_like)) \<and>
        (\<forall>j. 2 < j \<and> j < length (var_pars example_like) \<and> j < length [- 3, 8 / 5, 20, 99 :: real]
               \<longrightarrow> var_pars example_like ! j \<noteq> var_pars example_like ! 2)
      \<longrightarrow> spec_params_dict example_like [- 3, 8 / 5, 20, 99] (var_pars example_like ! 2)
            = Some ([- 3, 8 / 5, 20, 99] ! 2)"
    by blast
  then have b: "spec_params_dict example_like [- 3, 8 / 5, 20, 99] ''T_d'' = Some 20"
    by (simp add: vp fp)
  from short have "dom (spec_params_dict example_like [- 3])
      = set (take (length [- 3 :: real]) (var_pars example_like))
          \<union> set (map fst (fixed_pars example_like))"
    by blast
  then have c: "dom (spec_params_dict example_like [- 3])
                  = {''beta_s'', ''nu_ref_s'', ''nu_ref_d''}"
    by (auto simp: vp fp)
  have d: "spec_params_dict example_like [- 3] ''beta_d'' = None"
  proof -
    have "''beta_d'' \<notin> dom (spec_params_dict example_like [- 3])"
      unfolding c by simp
    then show ?thesis by (simp add: domIff)
  qed
  from short have "f_matrix example_like [- 3]
     = fnu (sky example_like) (nus example_like)
         (map_of (rev (zip (take (length [- 3 :: real]) (var_pars example_like))
                           (take (length (var_pars example_like)) [- 3])))
          ++ map_of (fixed_pars example_like))"
    by blast
  then have e: "f_matrix example_like [- 3]
     = fnu example_sky [10, 20]
         (map_of [(''beta_s'', - 3)] ++ map_of [(''nu_ref_s'', 23), (''nu_ref_d'', 353)])"
    by (simp add: vp fp sk nu)
  from a b c d e show ?thesis by blast
qed

section \<open>split_data with a selection it does not know (claim C10)\<close>

text \<open>
  Claim C10. For a selection argument that is neither \<^verbatim>\<open>None\<close> nor an \<^verbatim>\<open>int\<close> nor a
  \<^verbatim>\<open>list\<close> (a tuple, a range, a numpy integer), iterating the generator of
  \<^verbatim>\<open>split_data\<close> raises the unbound-local error for \<^verbatim>\<open>ipixs\<close> and yields nothing (the
  region resolution being a valid one, not 0, so that the division before it succeeds).
\<close>

theorem split_data_other_argument_unbound:
  "nside_spec self \<noteq> 0 \<Longrightarrow>
     split_data hp self IpixOther = ([], Some (UnboundLocalError ''ipixs''))"
  by (simp add: split_data_def Let_def)

theorem split_data_other_argument_unbound_witness:
  "nside_spec (split_like 1 2 [[ramp 48]] [[ramp 48]]) \<noteq> 0 \<and>
   split_data example_healpy (split_like 1 2 [[ramp 48]] [[ramp 48]]) IpixOther
     = ([], Some (UnboundLocalError ''ipixs'')) \<and>
   split_data example_healpy (split_like 1 2 [[ramp 48]] [[ramp 48]]) (IpixInt 0)
     = ([([[[13, 5, 4, 0]]], [[[13, 5, 4, 0]]])], None) \<and>
   split_data example_healpy (split_like 1 2 [[ramp 48]] [[ramp 48]]) (IpixList [0, 11])
     = ([([[[13, 5, 4, 0]]], [[[13, 5, 4, 0]]]), ([[[47, 43, 42, 35]]], [[[47, 43, 42, 35]]])],
        None)"
proof -
  have h: "nside_spec (split_like 1 2 [[ramp 48]] [[ramp 48]]) \<noteq> 0"
    by (simp add: split_like_def)
  have a: "split_data example_healpy (split_like 1 2 [[ramp 48]] [[ramp 48]]) (IpixInt 0)
     = ([([[[13, 5, 4, 0]]], [[[13, 5, 4, 0]]])], None)"
    by code_simp
  have b: "split_data example_healpy (split_like 1 2 [[ramp 48]] [[ramp 48]]) (IpixList [0, 11])
     = ([([[[13, 5, 4, 0]]], [[[13, 5, 4, 0]]]), ([[[47, 43, 42, 35]]], [[[47, 43, 42, 35]]])],
        None)"
    by code_simp
  from h split_data_other_argument_unbound [OF h, of example_healpy] a b show ?thesis
    by blast
qed

end
